theory Spec2Isabelle
  imports Complex_Main "HOL-Library.Word" "HOL-Library.Log_Nat"
begin

section \<open>Coordinate model (grid.go)\<close>

text \<open>
  The Go source computes on \<^verbatim>\<open>float32\<close>. The embedding idealises a \<^verbatim>\<open>float32\<close> as a
  rational number: every value a float can hold is rational, and the arithmetic below
  (\<open>+\<close>, \<open>/ 2\<close>, \<open>* 2\<close>, comparisons) is the exact operation that the float operation
  rounds. Rounding, overflow to infinity and NaN are outside the model.
\<close>

type_synonym float32 = rat
type_synonym uint32 = "32 word"

definition MAX_ZOOM :: float32 where
  "MAX_ZOOM = 16"

definition MIN_ZOOM :: float32 where
  "MIN_ZOOM = 2"

record Coord =
  X :: float32
  Y :: float32
  Z :: float32

text \<open>
  \<^verbatim>\<open>func (c *Coord) Add(a Coord)\<close>: the receiver is updated in place; the model returns
  the updated receiver. The statements are kept in the order of the source: pan, then
  the scaling branch on the sign of \<open>a.Z\<close>, then the clamp of \<open>c.Z\<close>.
\<close>

definition Add_pan :: "Coord \<Rightarrow> Coord \<Rightarrow> Coord" where
  "Add_pan c a = c\<lparr>X := X c + X a, Y := Y c + Y a\<rparr>"

definition Add_scale :: "Coord \<Rightarrow> Coord \<Rightarrow> Coord" where
  "Add_scale c a =
     (if Z a < 0 then c\<lparr>X := X c / 2, Y := Y c / 2, Z := Z c + Z a\<rparr>
      else if Z a > 0 then c\<lparr>X := X c * 2, Y := Y c * 2, Z := Z c + Z a\<rparr>
      else c)"

definition Add_clamp :: "Coord \<Rightarrow> Coord" where
  "Add_clamp c =
     (if Z c > MAX_ZOOM then c\<lparr>Z := MAX_ZOOM\<rparr>
      else if Z c < MIN_ZOOM then c\<lparr>Z := MIN_ZOOM\<rparr>
      else c)"

definition Add :: "Coord \<Rightarrow> Coord \<Rightarrow> Coord" where
  "Add c a = Add_clamp (Add_scale (Add_pan c a) a)"

section \<open>Tiles (tile/tile.go)\<close>

text \<open>
  \<^verbatim>\<open>tile.TileCoord\<close> has three \<^verbatim>\<open>uint32\<close> fields \<^verbatim>\<open>X\<close>, \<^verbatim>\<open>Y\<close>, \<^verbatim>\<open>Z\<close>; the selectors
  carry a prefix because \<open>X\<close>, \<open>Y\<close>, \<open>Z\<close> are the fields of \<open>Coord\<close>. Of a
  \<^verbatim>\<open>tile.PngTile\<close> the decoded image is kept as an opaque number.
\<close>

datatype TileCoord = TileCoord (tile_X: uint32) (tile_Y: uint32) (tile_Z: uint32)

record PngTile =
  Tile :: TileCoord
  Image :: nat
  Texture :: "nat option"

section \<open>Conversions between \<^verbatim>\<open>float32\<close> and \<^verbatim>\<open>uint32\<close>\<close>

text \<open>
  \<^verbatim>\<open>float32(n)\<close> of a \<^verbatim>\<open>uint32\<close> is its value. \<^verbatim>\<open>uint32(v)\<close> of a float discards the
  fraction (truncation towards zero); where the truncated value is not a \<^verbatim>\<open>uint32\<close> the Go
  specification leaves the result to the implementation, which is the parameter \<open>impl\<close>.
\<close>

type_synonym conversion = "float32 \<Rightarrow> uint32"

definition to_float32 :: "uint32 \<Rightarrow> float32" where
  "to_float32 n = of_nat (unat n)"

definition discard_fraction :: "float32 \<Rightarrow> int" where
  "discard_fraction v = (if 0 \<le> v then \<lfloor>v\<rfloor> else \<lceil>v\<rceil>)"

definition to_uint32 :: "conversion \<Rightarrow> float32 \<Rightarrow> uint32" where
  "to_uint32 impl v =
     (if 0 \<le> discard_fraction v \<and> discard_fraction v < 2 ^ 32 then word_of_int (discard_fraction v) else impl v)"

section \<open>The tile grid (grid.go)\<close>

text \<open>
  A goroutine started by \<^verbatim>\<open>SetLocation\<close> for one tile performs, in this order,
  \<^verbatim>\<open>loading.Load\<close>, \<^verbatim>\<open>cache.Load\<close>, \<^verbatim>\<open>loading.Store\<close> and the send on \<^verbatim>\<open>TilesToLoad\<close>.
  Its program counter names the operation it performs next. After the store it is blocked
  in the send, and its key waits in the channel.
\<close>

datatype loader_pc = CheckLoading | CheckCache | StoreLoading

text \<open>
  The fields of \<^verbatim>\<open>TileGrid\<close>, in the order of the source. The two \<^verbatim>\<open>sync.Map\<close>s are
  maps. Both channels are unbuffered: the state of one is the list of values whose senders
  are blocked on it, oldest first. A \<^verbatim>\<open>func()\<close> sent on \<^verbatim>\<open>TilesInFlight\<close> is the cancel
  function of one fetch context, named by the number of that fetch. \<^verbatim>\<open>TilesToExpire\<close> is
  never sent on or received from and is left out.

  The last four fields are not fields of the struct. They hold what the Go runtime and
  the fetch worker of main.go hold: the goroutines of \<^verbatim>\<open>SetLocation\<close> that have not
  reached their send, the fetch contexts that have been cancelled, and the fetches that the
  worker has started and that have not called \<^verbatim>\<open>SetTile\<close>.
\<close>

record TileGrid =
  location :: Coord
  tileWidth :: float32
  tileHeight :: float32
  halfTileWidth :: float32
  halfTileHeight :: float32
  screenWidth :: float32
  screenHeight :: float32
  cache :: "TileCoord \<rightharpoonup> PngTile"
  loading :: "TileCoord \<rightharpoonup> bool"
  ScreenTileWidth :: uint32
  ScreenTileHeight :: uint32
  TilesToLoad :: "TileCoord list"
  TilesInFlight :: "nat list"
  loaders :: "(TileCoord \<times> loader_pc) list"
  cancelled :: "nat set"
  fetching :: "(nat \<times> TileCoord) list"
  nextFetch :: nat

subsection \<open>Visible tiles\<close>

text \<open>
  The values that the variable of \<^verbatim>\<open>for v := lo; v < hi; v += step\<close> takes, in order. With
  \<open>v < hi\<close> and \<open>step \<le> 0\<close> the variable never reaches \<open>hi\<close> and the loop does not
  exit: the result is \<open>None\<close>.
\<close>

function frange :: "float32 \<Rightarrow> float32 \<Rightarrow> float32 \<Rightarrow> float32 list option" where
  "frange v hi step =
     (if v < hi then (if step \<le> 0 then None else map_option ((#) v) (frange (v + step) hi step))
      else Some [])"
  by pat_completeness auto
termination
proof (relation "measure (\<lambda>(v, hi, step). nat \<lceil>(hi - v) / step\<rceil>)")
  show "wf (measure (\<lambda>(v, hi, step). nat \<lceil>(hi - v) / step\<rceil>))"
    by simp
next
  fix v hi step :: rat
  assume lt: "v < hi" and st: "\<not> step \<le> 0"
  have eq: "(hi - (v + step)) / step = (hi - v) / step - 1"
    using st by (simp add: field_simps)
  have "0 < (hi - v) / step"
    using lt st by simp
  then have "0 < \<lceil>(hi - v) / step\<rceil>"
    by simp
  then show "((v + step, hi, step), (v, hi, step)) \<in> measure (\<lambda>(v, hi, step). nat \<lceil>(hi - v) / step\<rceil>)"
    by (simp add: eq)
qed

declare frange.simps [simp del]

text \<open>The body of the inner loop: the tile of the cell at world position \<open>(x, y)\<close>.\<close>

definition tileCoordAt :: "conversion \<Rightarrow> TileGrid \<Rightarrow> float32 \<Rightarrow> float32 \<Rightarrow> TileCoord" where
  "tileCoordAt impl t x y =
     (let tX = x / tileWidth t;
          tY = y / tileHeight t;
          tX = (if tX < 0 then 0 else tX);
          tY = (if tY < 0 then 0 else tY)
      in TileCoord (to_uint32 impl tX) (to_uint32 impl tY) (to_uint32 impl (Z (location t))))"

text \<open>
  The two nested loops of \<^verbatim>\<open>forEachVisibleTile\<close>: the world positions \<open>(x, y)\<close> at which
  the body runs, in order (\<open>x\<close> outer, \<open>y\<close> inner), or \<open>None\<close> when one of the loops does
  not exit. The inner loop starts afresh for every \<open>x\<close>.
\<close>

definition visibleCells :: "TileGrid \<Rightarrow> (float32 \<times> float32) list option" where
  "visibleCells t =
     (let x1 = X (location t) - tileWidth t;
          x2 = X (location t) + halfTileWidth t + screenWidth t;
          y1 = Y (location t) - tileHeight t;
          y2 = Y (location t) + halfTileHeight t + screenHeight t
      in Option.bind (frange x1 x2 (tileWidth t)) (\<lambda>xs.
           map_option concat (those (map (\<lambda>x.
             map_option (map (Pair x)) (frange y1 y2 (tileHeight t))) xs))))"

text \<open>
  \<^verbatim>\<open>forEachVisibleTile(f)\<close>: the tiles that \<open>f\<close> is called on, in the order of the calls.
\<close>

definition forEachVisibleTile :: "conversion \<Rightarrow> TileGrid \<Rightarrow> TileCoord list option" where
  "forEachVisibleTile impl t =
     map_option (map (\<lambda>(x, y). tileCoordAt impl t x y)) (visibleCells t)"

subsection \<open>Operations\<close>

text \<open>
  \<^verbatim>\<open>SetLocation\<close> overwrites the location and starts one goroutine per visible tile. The
  goroutines run later, one operation at a time (\<open>loader_step\<close>).
\<close>

definition SetLocation :: "conversion \<Rightarrow> TileGrid \<Rightarrow> Coord \<Rightarrow> TileGrid option" where
  "SetLocation impl t loc =
     (let t1 = t\<lparr>location := loc\<rparr>
      in map_option (\<lambda>ks. t1\<lparr>loaders := loaders t1 @ map (\<lambda>k. (k, CheckLoading)) ks\<rparr>)
           (forEachVisibleTile impl t1))"

text \<open>
  The struct that \<^verbatim>\<open>NewTileGrid\<close> builds before it calls \<^verbatim>\<open>SetLocation\<close>: the maps and
  the channels are empty, no goroutine and no fetch has been started. \<^verbatim>\<open>NewTileGrid\<close>
  builds it after its checks, so the divisions are by tile sizes that are not zero.
\<close>

definition initial_grid :: "Coord \<Rightarrow> uint32 \<Rightarrow> uint32 \<Rightarrow> uint32 \<Rightarrow> uint32 \<Rightarrow> TileGrid" where
  "initial_grid current tw th sw sh =
     \<lparr>location = current,
      tileWidth = to_float32 tw,
      tileHeight = to_float32 th,
      halfTileWidth = to_float32 tw / 2,
      halfTileHeight = to_float32 th / 2,
      screenWidth = to_float32 sw,
      screenHeight = to_float32 sh,
      cache = Map.empty,
      loading = Map.empty,
      ScreenTileWidth = sw div tw,
      ScreenTileHeight = sh div th,
      TilesToLoad = [],
      TilesInFlight = [],
      loaders = [],
      cancelled = {},
      fetching = [],
      nextFetch = 0\<rparr>"

text \<open>
  \<^verbatim>\<open>NewTileGrid\<close>: \<open>Inl\<close> is the error of the source, with its message; \<open>None\<close> is a call
  that does not return.
\<close>

definition NewTileGrid ::
  "conversion \<Rightarrow> Coord \<Rightarrow> uint32 \<Rightarrow> uint32 \<Rightarrow> uint32 \<Rightarrow> uint32 \<Rightarrow> (string + TileGrid) option" where
  "NewTileGrid impl current tw th sw sh =
     (if sw = 0 \<or> sh = 0 then Some (Inl ''screen width and height must be positive'')
      else if tw = 0 \<or> th = 0 then Some (Inl ''tile width and height must be positive'')
      else map_option Inr (SetLocation impl (initial_grid current tw th sw sh) current))"

text \<open>
  The loop of \<^verbatim>\<open>CancelLoadingTiles\<close> receives from whichever channel has a blocked sender
  and leaves by \<^verbatim>\<open>default\<close> when neither has one. \<^verbatim>\<open>select\<close> picks among the ready
  cases at random; the model takes them in the order of the source. The arguments are the
  senders still blocked on \<^verbatim>\<open>TilesToLoad\<close> and on \<^verbatim>\<open>TilesInFlight\<close>.
\<close>

fun drain :: "TileCoord list \<Rightarrow> nat list \<Rightarrow> TileGrid \<Rightarrow> TileGrid" where
  "drain (l # ls) cs t =
     drain ls cs (t\<lparr>loading := (loading t)(l := None), cache := (cache t)(l := None)\<rparr>)"
| "drain [] (c # cs) t = drain [] cs (t\<lparr>cancelled := insert c (cancelled t)\<rparr>)"
| "drain [] [] t = t"

definition CancelLoadingTiles :: "TileGrid \<Rightarrow> TileGrid" where
  "CancelLoadingTiles t =
     (drain (TilesToLoad t) (TilesInFlight t) t)
       \<lparr>TilesToLoad := [], TilesInFlight := [], loading := Map.empty\<rparr>"

text \<open>
  \<^verbatim>\<open>Move\<close>, up to its last statement: the delta is added to the location; after a zoom
  the loading tiles are cancelled and a second \<^verbatim>\<open>Add\<close>, with \<open>Z = 0\<close>, shifts the pan
  offset. The last statement hands the result to \<^verbatim>\<open>SetLocation\<close>.
\<close>

definition Move_adjust :: "TileGrid \<Rightarrow> Coord \<Rightarrow> TileGrid" where
  "Move_adjust t delta =
     (let t1 = t\<lparr>location := Add (location t) delta\<rparr>
      in if Z delta \<noteq> 0 then
           (let t3 = CancelLoadingTiles t1
            in if Z delta < 0 then
                 t3\<lparr>location := Add (location t3)
                   \<lparr>X = - to_float32 (ScreenTileWidth t3) / 4 * tileWidth t3,
                    Y = - to_float32 (ScreenTileHeight t3) / 4 * tileHeight t3,
                    Z = 0\<rparr>\<rparr>
               else
                 t3\<lparr>location := Add (location t3)
                   \<lparr>X = to_float32 (ScreenTileWidth t3) / 2 * tileWidth t3,
                    Y = to_float32 (ScreenTileHeight t3) / 2 * tileHeight t3,
                    Z = 0\<rparr>\<rparr>)
         else t1)"

definition Move :: "conversion \<Rightarrow> TileGrid \<Rightarrow> Coord \<Rightarrow> TileGrid option" where
  "Move impl t delta =
     (let t2 = Move_adjust t delta in SetLocation impl t2 (location t2))"

definition SetTile :: "TileGrid \<Rightarrow> TileCoord \<Rightarrow> PngTile \<Rightarrow> TileGrid" where
  "SetTile t coord tile =
     (let t1 = t\<lparr>loading := (loading t)(coord := None)\<rparr>
      in t1\<lparr>cache := (cache t1)(coord \<mapsto> tile)\<rparr>)"

definition Drawable :: "conversion \<Rightarrow> TileGrid \<Rightarrow> PngTile list option" where
  "Drawable impl t = map_option (List.map_filter (cache t)) (forEachVisibleTile impl t)"

subsection \<open>Goroutines\<close>

text \<open>
  One operation of the \<open>i\<close>-th goroutine of \<^verbatim>\<open>SetLocation\<close> that has not reached its
  send. A goroutine that returns leaves the list; one that has stored its key is blocked
  in \<^verbatim>\<open>t.TilesToLoad <- tileCoord\<close>.
\<close>

definition remove_nth :: "nat \<Rightarrow> 'a list \<Rightarrow> 'a list" where
  "remove_nth i xs = take i xs @ drop (Suc i) xs"

definition loader_step :: "TileGrid \<Rightarrow> nat \<Rightarrow> TileGrid" where
  "loader_step t i =
     (if i < length (loaders t) then
        (case loaders t ! i of
           (k, CheckLoading) \<Rightarrow>
             (if loading t k \<noteq> None then t\<lparr>loaders := remove_nth i (loaders t)\<rparr>
              else t\<lparr>loaders := (loaders t)[i := (k, CheckCache)]\<rparr>)
         | (k, CheckCache) \<Rightarrow>
             (if cache t k \<noteq> None then t\<lparr>loaders := remove_nth i (loaders t)\<rparr>
              else t\<lparr>loaders := (loaders t)[i := (k, StoreLoading)]\<rparr>)
         | (k, StoreLoading) \<Rightarrow>
             t\<lparr>loading := (loading t)(k \<mapsto> True),
               loaders := remove_nth i (loaders t),
               TilesToLoad := TilesToLoad t @ [k]\<rparr>)
      else t)"

text \<open>
  The worker of main.go (\<^verbatim>\<open>handleTileLoading\<close>) receives a key from \<^verbatim>\<open>TilesToLoad\<close> and
  starts a fetch for it; \<^verbatim>\<open>fetchTile\<close> starts a goroutine that sends the cancel function of
  the fetch on \<^verbatim>\<open>TilesInFlight\<close>. A fetch that succeeds calls \<^verbatim>\<open>SetTile\<close>.
\<close>

definition worker_receive :: "TileGrid \<Rightarrow> TileGrid" where
  "worker_receive t =
     (case TilesToLoad t of
        [] \<Rightarrow> t
      | k # ks \<Rightarrow>
          t\<lparr>TilesToLoad := ks,
            TilesInFlight := TilesInFlight t @ [nextFetch t],
            fetching := fetching t @ [(nextFetch t, k)],
            nextFetch := Suc (nextFetch t)\<rparr>)"

definition fetch_done :: "TileGrid \<Rightarrow> nat \<Rightarrow> PngTile \<Rightarrow> TileGrid" where
  "fetch_done t n tile =
     (case map_of (fetching t) n of
        None \<Rightarrow> t
      | Some k \<Rightarrow> SetTile (t\<lparr>fetching := filter (\<lambda>p. fst p \<noteq> n) (fetching t)\<rparr>) k tile)"

text \<open>
  A run of the program: calls of the grid's methods, interleaved with single operations of
  the goroutines and of the worker.
\<close>

datatype event =
    CallSetLocation Coord
  | CallMove Coord
  | CallSetTile TileCoord PngTile
  | LoaderStep nat
  | WorkerReceive
  | FetchDone nat PngTile

fun exec :: "conversion \<Rightarrow> TileGrid \<Rightarrow> event \<Rightarrow> TileGrid option" where
  "exec impl t (CallSetLocation loc) = SetLocation impl t loc"
| "exec impl t (CallMove delta) = Move impl t delta"
| "exec impl t (CallSetTile coord tile) = Some (SetTile t coord tile)"
| "exec impl t (LoaderStep i) = Some (loader_step t i)"
| "exec impl t WorkerReceive = Some (worker_receive t)"
| "exec impl t (FetchDone n tile) = Some (fetch_done t n tile)"

fun run :: "conversion \<Rightarrow> TileGrid \<Rightarrow> event list \<Rightarrow> TileGrid option" where
  "run impl t [] = Some t"
| "run impl t (e # es) = Option.bind (exec impl t e) (\<lambda>t'. run impl t' es)"

text \<open>A sequence of \<^verbatim>\<open>Move\<close> calls.\<close>

fun Moves :: "conversion \<Rightarrow> TileGrid \<Rightarrow> Coord list \<Rightarrow> TileGrid option" where
  "Moves impl t [] = Some t"
| "Moves impl t (d # ds) = Option.bind (Move impl t d) (\<lambda>t'. Moves impl t' ds)"

text \<open>
  A program: it creates the grid and runs; \<open>None\<close> when the creation fails or a call
  does not return.
\<close>

definition program ::
  "conversion \<Rightarrow> Coord \<Rightarrow> uint32 \<Rightarrow> uint32 \<Rightarrow> uint32 \<Rightarrow> uint32 \<Rightarrow> event list \<Rightarrow> TileGrid option" where
  "program impl current tw th sw sh es =
     (case NewTileGrid impl current tw th sw sh of
        Some (Inr grid) \<Rightarrow> run impl grid es
      | _ \<Rightarrow> None)"

text \<open>An implementation whose conversions of unrepresentable values give 0.\<close>

definition zero_conversion :: conversion where
  "zero_conversion v = 0"

section \<open>The visible tiles in \<^verbatim>\<open>float32\<close> arithmetic\<close>

text \<open>
  The loops of \<^verbatim>\<open>forEachVisibleTile\<close> depend on the rounding of \<^verbatim>\<open>float32\<close>: far from
  the origin \<open>x += tileWidth\<close> can leave \<open>x\<close> unchanged. This section repeats the
  visible-tile computation and the construction of the grid with every arithmetic result
  rounded to the nearest \<^verbatim>\<open>float32\<close>: a significand of 24 bits, ties to the even
  significand. The exponent is not bounded: overflow to infinity, subnormal numbers and NaN
  are outside the model.
\<close>

definition round_half_even :: "rat \<Rightarrow> int" where
  "round_half_even y =
     (let f = \<lfloor>y\<rfloor>; r = y - of_int f
      in if r < 1 / 2 then f else if 1 / 2 < r then f + 1 else if even f then f else f + 1)"

text \<open>The binary exponent of \<open>x \<noteq> 0\<close>: the \<open>e\<close> with \<open>2 ^ e \<le> \<bar>x\<bar> < 2 ^ (e + 1)\<close>.\<close>

definition exponent :: "rat \<Rightarrow> int" where
  "exponent x =
     (if 1 \<le> \<bar>x\<bar> then int (floorlog 2 (nat \<lfloor>\<bar>x\<bar>\<rfloor>)) - 1
      else - int (floorlog 2 (nat (\<lceil>1 / \<bar>x\<bar>\<rceil> - 1))))"

definition float32_round :: "rat \<Rightarrow> float32" where
  "float32_round x =
     (if x = 0 then 0
      else of_int (round_half_even (x * 2 powi (23 - exponent x))) * 2 powi (exponent x - 23))"

text \<open>
  \<^verbatim>\<open>for v := lo; v < hi; v += step\<close> on \<^verbatim>\<open>float32\<close>: the sum is rounded. The loop need not
  exit; a loop that does not exit has the value \<open>None\<close>.
\<close>

partial_function (option) frange_f32 :: "float32 \<Rightarrow> float32 \<Rightarrow> float32 \<Rightarrow> float32 list option" where
  "frange_f32 v hi step =
     (if v < hi then Option.bind (frange_f32 (float32_round (v + step)) hi step) (\<lambda>r. Some (v # r))
      else Some [])"

definition tileCoordAt_f32 :: "conversion \<Rightarrow> TileGrid \<Rightarrow> float32 \<Rightarrow> float32 \<Rightarrow> TileCoord" where
  "tileCoordAt_f32 impl t x y =
     (let tX = float32_round (x / tileWidth t);
          tY = float32_round (y / tileHeight t);
          tX = (if tX < 0 then 0 else tX);
          tY = (if tY < 0 then 0 else tY)
      in TileCoord (to_uint32 impl tX) (to_uint32 impl tY) (to_uint32 impl (Z (location t))))"

definition visibleCells_f32 :: "TileGrid \<Rightarrow> (float32 \<times> float32) list option" where
  "visibleCells_f32 t =
     (let x1 = float32_round (X (location t) - tileWidth t);
          x2 = float32_round (float32_round (X (location t) + halfTileWidth t) + screenWidth t);
          y1 = float32_round (Y (location t) - tileHeight t);
          y2 = float32_round (float32_round (Y (location t) + halfTileHeight t) + screenHeight t)
      in Option.bind (frange_f32 x1 x2 (tileWidth t)) (\<lambda>xs.
           map_option concat (those (map (\<lambda>x.
             map_option (map (Pair x)) (frange_f32 y1 y2 (tileHeight t))) xs))))"

definition forEachVisibleTile_f32 :: "conversion \<Rightarrow> TileGrid \<Rightarrow> TileCoord list option" where
  "forEachVisibleTile_f32 impl t =
     map_option (map (\<lambda>(x, y). tileCoordAt_f32 impl t x y)) (visibleCells_f32 t)"


definition SetLocation_f32 :: "conversion \<Rightarrow> TileGrid \<Rightarrow> Coord \<Rightarrow> TileGrid option" where
  "SetLocation_f32 impl t loc =
     (let t1 = t\<lparr>location := loc\<rparr>
      in map_option (\<lambda>ks. t1\<lparr>loaders := loaders t1 @ map (\<lambda>k. (k, CheckLoading)) ks\<rparr>)
           (forEachVisibleTile_f32 impl t1))"

text \<open>\<^verbatim>\<open>float32(n)\<close> of a \<^verbatim>\<open>uint32\<close>, rounded.\<close>

definition to_float32_f32 :: "uint32 \<Rightarrow> float32" where
  "to_float32_f32 n = float32_round (of_nat (unat n))"

definition initial_grid_f32 :: "Coord \<Rightarrow> uint32 \<Rightarrow> uint32 \<Rightarrow> uint32 \<Rightarrow> uint32 \<Rightarrow> TileGrid" where
  "initial_grid_f32 current tw th sw sh =
     \<lparr>location = current,
      tileWidth = to_float32_f32 tw,
      tileHeight = to_float32_f32 th,
      halfTileWidth = float32_round (to_float32_f32 tw / 2),
      halfTileHeight = float32_round (to_float32_f32 th / 2),
      screenWidth = to_float32_f32 sw,
      screenHeight = to_float32_f32 sh,
      cache = Map.empty,
      loading = Map.empty,
      ScreenTileWidth = sw div tw,
      ScreenTileHeight = sh div th,
      TilesToLoad = [],
      TilesInFlight = [],
      loaders = [],
      cancelled = {},
      fetching = [],
      nextFetch = 0\<rparr>"

text \<open>\<^verbatim>\<open>NewTileGrid\<close> of the first revision of grid.go, which checks all four sizes.\<close>

definition NewTileGrid_f32 ::
  "conversion \<Rightarrow> Coord \<Rightarrow> uint32 \<Rightarrow> uint32 \<Rightarrow> uint32 \<Rightarrow> uint32 \<Rightarrow> (string + TileGrid) option" where
  "NewTileGrid_f32 impl current tw th sw sh =
     (if sw = 0 \<or> sh = 0 then Some (Inl ''screen width and height must be positive'')
      else if tw = 0 \<or> th = 0 then Some (Inl ''tile width and height must be positive'')
      else map_option Inr (SetLocation_f32 impl (initial_grid_f32 current tw th sw sh) current))"

text \<open>
  \<^verbatim>\<open>NewTileGrid\<close> and \<^verbatim>\<open>Resize\<close> of the revision with \<^verbatim>\<open>Resize\<close>, the one that main.go
  calls: only the tile sizes are checked, the view sizes are zero in the struct literal and
  are set by \<^verbatim>\<open>Resize\<close>.
\<close>

definition Resize_f32 :: "conversion \<Rightarrow> TileGrid \<Rightarrow> uint32 \<Rightarrow> uint32 \<Rightarrow> TileGrid" where
  "Resize_f32 impl t width height =
     t\<lparr>screenWidth := to_float32_f32 width,
       screenHeight := to_float32_f32 height,
       ScreenTileWidth := width div to_uint32 impl (tileWidth t),
       ScreenTileHeight := height div to_uint32 impl (tileHeight t)\<rparr>"

definition NewTileGrid_view_f32 ::
  "conversion \<Rightarrow> Coord \<Rightarrow> uint32 \<Rightarrow> uint32 \<Rightarrow> uint32 \<Rightarrow> uint32 \<Rightarrow> (string + TileGrid) option" where
  "NewTileGrid_view_f32 impl origin tw th vw vh =
     (if tw = 0 \<or> th = 0 then Some (Inl ''tile width and height must be positive'')
      else map_option Inr (SetLocation_f32 impl
             (Resize_f32 impl
                \<lparr>location = origin,
                 tileWidth = to_float32_f32 tw,
                 tileHeight = to_float32_f32 th,
                 halfTileWidth = float32_round (to_float32_f32 tw / 2),
                 halfTileHeight = float32_round (to_float32_f32 th / 2),
                 screenWidth = 0,
                 screenHeight = 0,
                 cache = Map.empty,
                 loading = Map.empty,
                 ScreenTileWidth = 0,
                 ScreenTileHeight = 0,
                 TilesToLoad = [],
                 TilesInFlight = [],
                 loaders = [],
                 cancelled = {},
                 fetching = [],
                 nextFetch = 0\<rparr> vw vh) origin))"

text \<open>
  The locations and sizes on which \<^verbatim>\<open>float32\<close> computes the loop bounds and the loop
  variables without rounding: multiples of \<open>1 / 2 ^ k\<close> of magnitude at most
  \<open>2 ^ 21 / 2 ^ k\<close>. With \<open>k = 0\<close> these are the whole numbers up to \<open>2 ^ 21\<close>.
\<close>

definition dyadic :: "nat \<Rightarrow> rat \<Rightarrow> bool" where
  "dyadic k x \<longleftrightarrow> x * 2 ^ k = of_int \<lfloor>x * 2 ^ k\<rfloor> \<and> \<bar>x\<bar> * 2 ^ k \<le> 2 ^ 21"


section \<open>Properties of the coordinate model\<close>

lemma Add_clamp_range: "MIN_ZOOM \<le> Z (Add_clamp c) \<and> Z (Add_clamp c) \<le> MAX_ZOOM"
  by (simp add: Add_clamp_def MIN_ZOOM_def MAX_ZOOM_def)

lemma Add_Z_range: "MIN_ZOOM \<le> Z (Add c a) \<and> Z (Add c a) \<le> MAX_ZOOM"
  unfolding Add_def by (rule Add_clamp_range)

text \<open>
  C2. \<open>Add\<close> adds the pan components, then scales the pan offset by the sign of \<open>a.Z\<close>:
  it halves \<open>X\<close> and \<open>Y\<close> when \<open>a.Z < 0\<close>, doubles them when \<open>a.Z > 0\<close> and leaves them
  when \<open>a.Z = 0\<close>. The new zoom is \<open>c.Z + a.Z\<close> clamped to \<open>[MIN_ZOOM, MAX_ZOOM]\<close>; the
  clamp comes last and does not undo the scaling.
\<close>

theorem Add_scales_before_clamp:
  "(Z a < 0 \<longrightarrow>
      X (Add c a) = (X c + X a) / 2 \<and> Y (Add c a) = (Y c + Y a) / 2 \<and>
      Z (Add c a) = max MIN_ZOOM (min MAX_ZOOM (Z c + Z a))) \<and>
   (Z a > 0 \<longrightarrow>
      X (Add c a) = (X c + X a) * 2 \<and> Y (Add c a) = (Y c + Y a) * 2 \<and>
      Z (Add c a) = max MIN_ZOOM (min MAX_ZOOM (Z c + Z a))) \<and>
   (Z a = 0 \<longrightarrow>
      X (Add c a) = X c + X a \<and> Y (Add c a) = Y c + Y a \<and>
      Z (Add c a) = max MIN_ZOOM (min MAX_ZOOM (Z c)))"
  by (simp add: Add_def Add_clamp_def Add_scale_def Add_pan_def MIN_ZOOM_def MAX_ZOOM_def)

text \<open>
  At the lower zoom limit a zoom-out still halves the pan offset, at the upper limit a
  zoom-in still doubles it, and a pure pan scales nothing.
\<close>

theorem Add_scales_before_clamp_witness:
  "Add \<lparr>X = 100, Y = 60, Z = 2\<rparr> \<lparr>X = 0, Y = 0, Z = - 1\<rparr> = \<lparr>X = 50, Y = 30, Z = 2\<rparr> \<and>
   Add \<lparr>X = 100, Y = 60, Z = 16\<rparr> \<lparr>X = 0, Y = 0, Z = 1\<rparr> = \<lparr>X = 200, Y = 120, Z = 16\<rparr> \<and>
   Add \<lparr>X = 100, Y = 60, Z = 6\<rparr> \<lparr>X = 7, Y = 8, Z = 0\<rparr> = \<lparr>X = 107, Y = 68, Z = 6\<rparr>"
  using Add_scales_before_clamp [of "\<lparr>X = 0, Y = 0, Z = - 1\<rparr>" "\<lparr>X = 100, Y = 60, Z = 2\<rparr>"]
    Add_scales_before_clamp [of "\<lparr>X = 0, Y = 0, Z = 1\<rparr>" "\<lparr>X = 100, Y = 60, Z = 16\<rparr>"]
    Add_scales_before_clamp [of "\<lparr>X = 7, Y = 8, Z = 0\<rparr>" "\<lparr>X = 100, Y = 60, Z = 6\<rparr>"]
  by (simp add: MIN_ZOOM_def MAX_ZOOM_def Add_def Add_clamp_def Add_scale_def Add_pan_def)

text \<open>
  C7. A zoom delta \<open>dz < 0\<close> followed by the delta \<open>- dz\<close>, both with zero pan, gives
  back the coordinate it started from, when neither step clamps: the zoom after the first
  step, \<open>c.Z + dz\<close>, is not below \<open>MIN_ZOOM\<close>, and the zoom after the second, \<open>c.Z\<close>, is
  not above \<open>MAX_ZOOM\<close>. In the model halving and doubling are exact.
\<close>

theorem zoom_out_then_in_restores_pan:
  assumes "dz < 0" and "MIN_ZOOM \<le> Z c + dz" and "Z c \<le> MAX_ZOOM"
  shows "X (Add (Add c \<lparr>X = 0, Y = 0, Z = dz\<rparr>) \<lparr>X = 0, Y = 0, Z = - dz\<rparr>) = X c \<and>
         Y (Add (Add c \<lparr>X = 0, Y = 0, Z = dz\<rparr>) \<lparr>X = 0, Y = 0, Z = - dz\<rparr>) = Y c \<and>
         Z (Add (Add c \<lparr>X = 0, Y = 0, Z = dz\<rparr>) \<lparr>X = 0, Y = 0, Z = - dz\<rparr>) = Z c"
  using assms
  by (simp add: Add_def Add_clamp_def Add_scale_def Add_pan_def MIN_ZOOM_def MAX_ZOOM_def)

theorem zoom_out_then_in_restores_pan_witness:
  "X (Add (Add \<lparr>X = 300, Y = 77, Z = 6\<rparr> \<lparr>X = 0, Y = 0, Z = - 3\<rparr>) \<lparr>X = 0, Y = 0, Z = - (- 3)\<rparr>) = 300 \<and>
   Y (Add (Add \<lparr>X = 300, Y = 77, Z = 6\<rparr> \<lparr>X = 0, Y = 0, Z = - 3\<rparr>) \<lparr>X = 0, Y = 0, Z = - (- 3)\<rparr>) = 77 \<and>
   Z (Add (Add \<lparr>X = 300, Y = 77, Z = 6\<rparr> \<lparr>X = 0, Y = 0, Z = - 3\<rparr>) \<lparr>X = 0, Y = 0, Z = - (- 3)\<rparr>) = 6"
  using zoom_out_then_in_restores_pan [of "- 3" "\<lparr>X = 300, Y = 77, Z = 6\<rparr>"]
  by (simp add: MIN_ZOOM_def MAX_ZOOM_def)

section \<open>The loops of the visible-tile computation exit\<close>

lemma frange_total: "0 < step \<Longrightarrow> \<exists>xs. frange v hi step = Some xs"
proof (induction v hi step rule: frange.induct)
  case (1 v hi step)
  show ?case
  proof (cases "v < hi")
    case True
    with 1 obtain xs where "frange (v + step) hi step = Some xs" by auto
    with True 1 show ?thesis by (subst frange.simps) simp
  next
    case False
    then show ?thesis by (subst frange.simps) simp
  qed
qed

lemma those_map_Some: "those (map (\<lambda>x. Some (f x)) xs) = Some (map f xs)"
  by (induction xs) simp_all

lemma visibleCells_total:
  assumes "0 < tileWidth t" "0 < tileHeight t"
  shows "\<exists>cs. visibleCells t = Some cs"
proof -
  obtain xs where xs: "frange (X (location t) - tileWidth t)
      (X (location t) + halfTileWidth t + screenWidth t) (tileWidth t) = Some xs"
    using frange_total [OF assms(1)] by blast
  obtain ys where ys: "frange (Y (location t) - tileHeight t)
      (Y (location t) + halfTileHeight t + screenHeight t) (tileHeight t) = Some ys"
    using frange_total [OF assms(2)] by blast
  show ?thesis
    by (simp add: visibleCells_def xs ys those_map_Some)
qed

lemma SetLocation_returns:
  assumes "0 < tileWidth t" "0 < tileHeight t"
  shows "\<exists>t'. SetLocation impl t loc = Some t' \<and> location t' = loc \<and>
           tileWidth t' = tileWidth t \<and> tileHeight t' = tileHeight t"
proof -
  have "0 < tileWidth (t\<lparr>location := loc\<rparr>)" "0 < tileHeight (t\<lparr>location := loc\<rparr>)"
    using assms by simp_all
  then obtain cs where "visibleCells (t\<lparr>location := loc\<rparr>) = Some cs"
    using visibleCells_total by blast
  then show ?thesis
    by (simp add: SetLocation_def forEachVisibleTile_def Let_def)
qed

lemma to_float32_pos: "w \<noteq> 0 \<Longrightarrow> 0 < to_float32 w"
proof -
  assume "w \<noteq> 0"
  then have "0 < unat w" by (simp add: unat_gt_0)
  then have "(0::rat) < of_nat (unat w)" by (simp only: of_nat_0_less_iff)
  then show ?thesis by (simp only: to_float32_def)
qed

lemma to_float32_numeral [simp]: "to_float32 256 = 256" "to_float32 512 = 512" "to_float32 500 = 500"
  by (simp_all add: to_float32_def)

section \<open>Moving the grid\<close>

lemma drain_fixed:
  "location (drain ls cs t) = location t \<and> tileWidth (drain ls cs t) = tileWidth t \<and>
   tileHeight (drain ls cs t) = tileHeight t \<and>
   ScreenTileWidth (drain ls cs t) = ScreenTileWidth t \<and>
   ScreenTileHeight (drain ls cs t) = ScreenTileHeight t"
  by (induction ls cs t rule: drain.induct) simp_all

lemma CancelLoadingTiles_fixed:
  "location (CancelLoadingTiles t) = location t \<and>
   tileWidth (CancelLoadingTiles t) = tileWidth t \<and>
   tileHeight (CancelLoadingTiles t) = tileHeight t \<and>
   ScreenTileWidth (CancelLoadingTiles t) = ScreenTileWidth t \<and>
   ScreenTileHeight (CancelLoadingTiles t) = ScreenTileHeight t"
  by (simp add: CancelLoadingTiles_def drain_fixed)

lemma Move_adjust_fixed:
  "tileWidth (Move_adjust t delta) = tileWidth t \<and>
   tileHeight (Move_adjust t delta) = tileHeight t \<and>
   ScreenTileWidth (Move_adjust t delta) = ScreenTileWidth t \<and>
   ScreenTileHeight (Move_adjust t delta) = ScreenTileHeight t"
  by (simp add: Move_adjust_def Let_def CancelLoadingTiles_fixed)

lemma Move_adjust_Z_range:
  "MIN_ZOOM \<le> Z (location (Move_adjust t delta)) \<and> Z (location (Move_adjust t delta)) \<le> MAX_ZOOM"
  by (simp add: Move_adjust_def Let_def CancelLoadingTiles_fixed Add_Z_range)

lemma Move_returns:
  assumes "0 < tileWidth t" "0 < tileHeight t"
  shows "\<exists>t'. Move impl t delta = Some t' \<and> location t' = location (Move_adjust t delta) \<and>
           tileWidth t' = tileWidth t \<and> tileHeight t' = tileHeight t \<and>
           MIN_ZOOM \<le> Z (location t') \<and> Z (location t') \<le> MAX_ZOOM"
proof -
  have "0 < tileWidth (Move_adjust t delta)" "0 < tileHeight (Move_adjust t delta)"
    using assms by (simp_all add: Move_adjust_fixed)
  then obtain t' where "SetLocation impl (Move_adjust t delta) (location (Move_adjust t delta)) = Some t'"
    "location t' = location (Move_adjust t delta)"
    "tileWidth t' = tileWidth (Move_adjust t delta)"
    "tileHeight t' = tileHeight (Move_adjust t delta)"
    using SetLocation_returns by blast
  then show ?thesis
    using Move_adjust_Z_range [of t delta] by (simp add: Move_def Let_def Move_adjust_fixed)
qed

text \<open>
  C1. From a grid with positive tile sizes and a zoom in \<open>[MIN_ZOOM, MAX_ZOOM]\<close>, every
  sequence of \<^verbatim>\<open>Move\<close> calls, with any deltas, returns, and the zoom of the location it
  leaves is in \<open>[MIN_ZOOM, MAX_ZOOM]\<close>. The sequence is arbitrary, so this holds after each
  of its calls.
\<close>

theorem Moves_zoom_in_range:
  assumes "0 < tileWidth t" and "0 < tileHeight t"
    and "MIN_ZOOM \<le> Z (location t)" and "Z (location t) \<le> MAX_ZOOM"
  shows "\<exists>t'. Moves impl t ds = Some t' \<and>
           MIN_ZOOM \<le> Z (location t') \<and> Z (location t') \<le> MAX_ZOOM"
  using assms
proof (induction ds arbitrary: t)
  case Nil
  then show ?case by simp
next
  case (Cons d ds)
  obtain t1 where t1: "Move impl t d = Some t1" "tileWidth t1 = tileWidth t"
    "tileHeight t1 = tileHeight t" "MIN_ZOOM \<le> Z (location t1)" "Z (location t1) \<le> MAX_ZOOM"
    using Move_returns [OF Cons.prems(1,2)] by blast
  have "\<exists>t'. Moves impl t1 ds = Some t' \<and>
           MIN_ZOOM \<le> Z (location t') \<and> Z (location t') \<le> MAX_ZOOM"
    using Cons.IH [of t1] t1 Cons.prems by simp
  then show ?case by (simp add: t1(1))
qed

theorem Moves_zoom_in_range_witness:
  "\<exists>t'. Moves zero_conversion (initial_grid \<lparr>X = 0, Y = 0, Z = 6\<rparr> 256 256 512 512)
           [\<lparr>X = 10, Y = - 20, Z = - 1000\<rparr>, \<lparr>X = 0, Y = 0, Z = 5000\<rparr>, \<lparr>X = 3, Y = 4, Z = 0\<rparr>] = Some t' \<and>
         MIN_ZOOM \<le> Z (location t') \<and> Z (location t') \<le> MAX_ZOOM"
  by (rule Moves_zoom_in_range) (simp_all add: initial_grid_def MIN_ZOOM_def MAX_ZOOM_def)

section \<open>Visible tiles\<close>

lemma to_uint32_small [simp]:
  "to_uint32 impl 0 = 0" "to_uint32 impl 1 = 1" "to_uint32 impl 2 = 2" "to_uint32 impl 6 = 6"
  by (simp_all add: to_uint32_def discard_fraction_def)

lemma cells_scenario:
  "visibleCells (initial_grid \<lparr>X = 0, Y = 0, Z = 6\<rparr> 256 256 512 512\<lparr>loaders := ls\<rparr>) =
     Some [(- 256, - 256), (- 256, 0), (- 256, 256), (- 256, 512),
           (0, - 256), (0, 0), (0, 256), (0, 512),
           (256, - 256), (256, 0), (256, 256), (256, 512),
           (512, - 256), (512, 0), (512, 256), (512, 512)]"
  by (simp add: visibleCells_def initial_grid_def frange.simps)

lemma tiles_scenario:
  "forEachVisibleTile impl (initial_grid \<lparr>X = 0, Y = 0, Z = 6\<rparr> 256 256 512 512\<lparr>loaders := ls\<rparr>) =
     Some [TileCoord 0 0 6, TileCoord 0 0 6, TileCoord 0 1 6, TileCoord 0 2 6,
           TileCoord 0 0 6, TileCoord 0 0 6, TileCoord 0 1 6, TileCoord 0 2 6,
           TileCoord 1 0 6, TileCoord 1 0 6, TileCoord 1 1 6, TileCoord 1 2 6,
           TileCoord 2 0 6, TileCoord 2 0 6, TileCoord 2 1 6, TileCoord 2 2 6]"
  unfolding forEachVisibleTile_def cells_scenario
  by (simp add: tileCoordAt_def initial_grid_def)

lemma NewTileGrid_scenario:
  "NewTileGrid impl \<lparr>X = 0, Y = 0, Z = 6\<rparr> 256 256 512 512 =
     Some (Inr (initial_grid \<lparr>X = 0, Y = 0, Z = 6\<rparr> 256 256 512 512
       \<lparr>loaders := map (\<lambda>k. (k, CheckLoading))
          [TileCoord 0 0 6, TileCoord 0 0 6, TileCoord 0 1 6, TileCoord 0 2 6,
           TileCoord 0 0 6, TileCoord 0 0 6, TileCoord 0 1 6, TileCoord 0 2 6,
           TileCoord 1 0 6, TileCoord 1 0 6, TileCoord 1 1 6, TileCoord 1 2 6,
           TileCoord 2 0 6, TileCoord 2 0 6, TileCoord 2 1 6, TileCoord 2 2 6]\<rparr>))"
proof -
  let ?g = "initial_grid \<lparr>X = 0, Y = 0, Z = 6\<rparr> 256 256 512 512"
  have loc: "?g\<lparr>location := \<lparr>X = 0, Y = 0, Z = 6\<rparr>\<rparr> = ?g\<lparr>loaders := []\<rparr>"
    by (simp add: initial_grid_def)
  show ?thesis
    unfolding NewTileGrid_def SetLocation_def Let_def loc tiles_scenario
    by (simp add: initial_grid_def)
qed

text \<open>
  C6. The grid created at location \<open>(0, 0, 6)\<close> with tiles of 256 by 256 and a screen of
  512 by 512 has as visible tiles exactly the keys \<open>{0, 1, 2} \<times> {0, 1, 2}\<close> at zoom 6:
  the cells at \<open>- 256\<close> give index 0, as the cells at \<open>0\<close> do.
\<close>

theorem visible_tiles_scenario:
  "\<exists>grid ks. NewTileGrid impl \<lparr>X = 0, Y = 0, Z = 6\<rparr> 256 256 512 512 = Some (Inr grid) \<and>
     forEachVisibleTile impl grid = Some ks \<and>
     set ks = (\<lambda>(x, y). TileCoord x y 6) ` ({0, 1, 2} \<times> {0, 1, 2})"
proof -
  have "set [TileCoord 0 0 6, TileCoord 0 0 6, TileCoord 0 1 6, TileCoord 0 2 6,
           TileCoord 0 0 6, TileCoord 0 0 6, TileCoord 0 1 6, TileCoord 0 2 6,
           TileCoord 1 0 6, TileCoord 1 0 6, TileCoord 1 1 6, TileCoord 1 2 6,
           TileCoord 2 0 6, TileCoord 2 0 6, TileCoord 2 1 6, TileCoord 2 2 (6 :: uint32)] =
        (\<lambda>(x, y). TileCoord x y 6) ` ({0, 1, 2} \<times> {0, 1, 2})"
    by auto
  then show ?thesis
    using NewTileGrid_scenario [of impl] tiles_scenario by blast
qed

lemma to_uint32_zero: "0 \<le> v \<Longrightarrow> v < 1 \<Longrightarrow> to_uint32 impl v = 0"
proof -
  assume v: "0 \<le> v" "v < 1"
  then have "\<lfloor>v\<rfloor> = 0" by linarith
  with v show ?thesis by (simp add: to_uint32_def discard_fraction_def)
qed

lemma to_uint32_floor:
  assumes "0 \<le> v" "v < 2 ^ 32"
  shows "uint (to_uint32 impl v) = \<lfloor>v\<rfloor>"
proof -
  have lo: "0 \<le> \<lfloor>v\<rfloor>" using assms(1) by simp
  have "\<lfloor>v\<rfloor> < 2 ^ 32" using assms(2) by (simp add: floor_less_iff)
  with lo assms(1) have "to_uint32 impl v = word_of_int \<lfloor>v\<rfloor>" and "\<lfloor>v\<rfloor> < 2 ^ 32"
    by (simp_all add: to_uint32_def discard_fraction_def)
  with lo show ?thesis
    by (simp add: uint_word_of_int take_bit_eq_mod)
qed

lemma tileCoordAt_X:
  assumes "0 < tileWidth t"
  shows "(x < 0 \<longrightarrow> tile_X (tileCoordAt impl t x y) = 0) \<and>
         (0 \<le> x \<and> x / tileWidth t < 2 ^ 32 \<longrightarrow>
            uint (tile_X (tileCoordAt impl t x y)) = \<lfloor>x / tileWidth t\<rfloor>)"
proof (intro conjI impI)
  assume "x < 0"
  then have "x / tileWidth t < 0" using assms by (simp add: divide_neg_pos)
  then show "tile_X (tileCoordAt impl t x y) = 0"
    by (simp add: tileCoordAt_def Let_def to_uint32_zero)
next
  assume a: "0 \<le> x \<and> x / tileWidth t < 2 ^ 32"
  then have nn: "0 \<le> x / tileWidth t" using assms by simp
  then have "tile_X (tileCoordAt impl t x y) = to_uint32 impl (x / tileWidth t)"
    by (simp add: tileCoordAt_def Let_def)
  then show "uint (tile_X (tileCoordAt impl t x y)) = \<lfloor>x / tileWidth t\<rfloor>"
    using to_uint32_floor [OF nn] a by simp
qed

lemma tileCoordAt_Y:
  assumes "0 < tileHeight t"
  shows "(y < 0 \<longrightarrow> tile_Y (tileCoordAt impl t x y) = 0) \<and>
         (0 \<le> y \<and> y / tileHeight t < 2 ^ 32 \<longrightarrow>
            uint (tile_Y (tileCoordAt impl t x y)) = \<lfloor>y / tileHeight t\<rfloor>)"
proof (intro conjI impI)
  assume "y < 0"
  then have "y / tileHeight t < 0" using assms by (simp add: divide_neg_pos)
  then show "tile_Y (tileCoordAt impl t x y) = 0"
    by (simp add: tileCoordAt_def Let_def to_uint32_zero)
next
  assume a: "0 \<le> y \<and> y / tileHeight t < 2 ^ 32"
  then have nn: "0 \<le> y / tileHeight t" using assms by simp
  then have "tile_Y (tileCoordAt impl t x y) = to_uint32 impl (y / tileHeight t)"
    by (simp add: tileCoordAt_def Let_def)
  then show "uint (tile_Y (tileCoordAt impl t x y)) = \<lfloor>y / tileHeight t\<rfloor>"
    using to_uint32_floor [OF nn] a by simp
qed

text \<open>
  C4. With positive tile sizes the visible-tile computation returns, and the index of a
  tile is never the conversion of a negative number: a cell whose world coordinate is
  negative has index 0, and a cell whose world coordinate is not negative has the index
  \<open>\<lfloor>x / tileWidth\<rfloor>\<close> (\<open>\<lfloor>y / tileHeight\<rfloor>\<close>) as long as that is a \<^verbatim>\<open>uint32\<close>.
\<close>

theorem visible_tiles_clamped:
  assumes "0 < tileWidth t" and "0 < tileHeight t"
  shows "\<exists>cs. visibleCells t = Some cs \<and>
           forEachVisibleTile impl t = Some (map (\<lambda>(x, y). tileCoordAt impl t x y) cs) \<and>
           (\<forall>(x, y) \<in> set cs.
              (x < 0 \<longrightarrow> tile_X (tileCoordAt impl t x y) = 0) \<and>
              (y < 0 \<longrightarrow> tile_Y (tileCoordAt impl t x y) = 0) \<and>
              (0 \<le> x \<and> x / tileWidth t < 2 ^ 32 \<longrightarrow>
                 uint (tile_X (tileCoordAt impl t x y)) = \<lfloor>x / tileWidth t\<rfloor>) \<and>
              (0 \<le> y \<and> y / tileHeight t < 2 ^ 32 \<longrightarrow>
                 uint (tile_Y (tileCoordAt impl t x y)) = \<lfloor>y / tileHeight t\<rfloor>))"
proof -
  obtain cs where cs: "visibleCells t = Some cs"
    using visibleCells_total [OF assms] by blast
  have "forEachVisibleTile impl t = Some (map (\<lambda>(x, y). tileCoordAt impl t x y) cs)"
    by (simp add: forEachVisibleTile_def cs)
  with cs show ?thesis
    using tileCoordAt_X [OF assms(1)] tileCoordAt_Y [OF assms(2)] by auto
qed

theorem visible_tiles_clamped_witness:
  "\<exists>cs. visibleCells (initial_grid \<lparr>X = - 100, Y = 300, Z = 6\<rparr> 256 256 512 512) = Some cs \<and>
     forEachVisibleTile zero_conversion (initial_grid \<lparr>X = - 100, Y = 300, Z = 6\<rparr> 256 256 512 512) =
       Some (map (\<lambda>(x, y). tileCoordAt zero_conversion
               (initial_grid \<lparr>X = - 100, Y = 300, Z = 6\<rparr> 256 256 512 512) x y) cs) \<and>
     (- 356, 44) \<in> set cs \<and>
     tile_X (tileCoordAt zero_conversion
               (initial_grid \<lparr>X = - 100, Y = 300, Z = 6\<rparr> 256 256 512 512) (- 356) 44) = 0"
proof -
  let ?t = "initial_grid \<lparr>X = - 100, Y = 300, Z = 6\<rparr> 256 256 512 512"
  have pos: "0 < tileWidth ?t" "0 < tileHeight ?t"
    by (simp_all add: initial_grid_def)
  have cells: "visibleCells ?t = Some
     [(- 356, 44), (- 356, 300), (- 356, 556), (- 356, 812),
      (- 100, 44), (- 100, 300), (- 100, 556), (- 100, 812),
      (156, 44), (156, 300), (156, 556), (156, 812),
      (412, 44), (412, 300), (412, 556), (412, 812)]"
    by (simp add: visibleCells_def initial_grid_def frange.simps)
  obtain cs where a: "visibleCells ?t = Some cs"
    and b: "forEachVisibleTile zero_conversion ?t =
              Some (map (\<lambda>(x, y). tileCoordAt zero_conversion ?t x y) cs)"
    and c: "\<forall>(x, y) \<in> set cs.
              (x < 0 \<longrightarrow> tile_X (tileCoordAt zero_conversion ?t x y) = 0) \<and>
              (y < 0 \<longrightarrow> tile_Y (tileCoordAt zero_conversion ?t x y) = 0) \<and>
              (0 \<le> x \<and> x / tileWidth ?t < 2 ^ 32 \<longrightarrow>
                 uint (tile_X (tileCoordAt zero_conversion ?t x y)) = \<lfloor>x / tileWidth ?t\<rfloor>) \<and>
              (0 \<le> y \<and> y / tileHeight ?t < 2 ^ 32 \<longrightarrow>
                 uint (tile_Y (tileCoordAt zero_conversion ?t x y)) = \<lfloor>y / tileHeight ?t\<rfloor>)"
    using visible_tiles_clamped [OF pos, of zero_conversion] by blast
  have "Some cs = Some
     [(- 356, 44), (- 356, 300), (- 356, 556), (- 356, 812),
      (- 100, 44), (- 100, 300), (- 100, 556), (- 100, 812),
      (156, 44), (156, 300), (156, 556), (156, 812),
      (412, 44), (412, 300), (412, 556), (412, 812)]"
    using a cells by (simp only:)
  then have mem: "(- 356, 44) \<in> set cs"
    by simp
  have neg: "tile_X (tileCoordAt zero_conversion ?t (- 356) 44) = 0"
    using bspec [OF c mem] by simp
  show ?thesis
    by (intro exI [of _ cs] conjI a b mem neg)
qed







section \<open>Cancellation and re-centring on zoom\<close>

lemma Add_pan_only:
  assumes "MIN_ZOOM \<le> Z c" "Z c \<le> MAX_ZOOM" "Z a = 0"
  shows "Add c a = c\<lparr>X := X c + X a, Y := Y c + Y a\<rparr>"
  using assms by (simp add: Add_def Add_clamp_def Add_scale_def Add_pan_def)

lemma drain_cache: "cache (drain ls cs t) k = (if k \<in> set ls then None else cache t k)"
  by (induction ls cs t rule: drain.induct) auto

lemma drain_cancelled: "cancelled (drain ls cs t) = cancelled t \<union> set cs"
  by (induction ls cs t rule: drain.induct) auto

lemma Move_adjust_zoom_out:
  assumes "Z delta < 0"
  shows "X (location (Move_adjust t delta)) =
           (X (location t) + X delta) / 2 - to_float32 (ScreenTileWidth t) / 4 * tileWidth t \<and>
         Y (location (Move_adjust t delta)) =
           (Y (location t) + Y delta) / 2 - to_float32 (ScreenTileHeight t) / 4 * tileHeight t"
proof -
  let ?c = "Add (location t) delta"
  have r: "MIN_ZOOM \<le> Z ?c" "Z ?c \<le> MAX_ZOOM"
    using Add_Z_range [of "location t" delta] by simp_all
  have xy: "X ?c = (X (location t) + X delta) / 2" "Y ?c = (Y (location t) + Y delta) / 2"
    using assms by (simp_all add: Add_def Add_clamp_def Add_scale_def Add_pan_def)
  show ?thesis
    using assms
    by (simp add: Move_adjust_def Let_def CancelLoadingTiles_fixed Add_pan_only [OF r] xy)
qed

lemma Move_adjust_zoom_in:
  assumes "0 < Z delta"
  shows "X (location (Move_adjust t delta)) =
           (X (location t) + X delta) * 2 + to_float32 (ScreenTileWidth t) / 2 * tileWidth t \<and>
         Y (location (Move_adjust t delta)) =
           (Y (location t) + Y delta) * 2 + to_float32 (ScreenTileHeight t) / 2 * tileHeight t"
proof -
  let ?c = "Add (location t) delta"
  have r: "MIN_ZOOM \<le> Z ?c" "Z ?c \<le> MAX_ZOOM"
    using Add_Z_range [of "location t" delta] by simp_all
  have xy: "X ?c = (X (location t) + X delta) * 2" "Y ?c = (Y (location t) + Y delta) * 2"
    using assms by (simp_all add: Add_def Add_clamp_def Add_scale_def Add_pan_def)
  show ?thesis
    using assms
    by (simp add: Move_adjust_def Let_def CancelLoadingTiles_fixed Add_pan_only [OF r] xy)
qed

lemma Move_adjust_cancels:
  assumes "Z delta \<noteq> 0"
  shows "loading (Move_adjust t delta) = Map.empty \<and>
         TilesToLoad (Move_adjust t delta) = [] \<and>
         TilesInFlight (Move_adjust t delta) = [] \<and>
         cancelled (Move_adjust t delta) = cancelled t \<union> set (TilesInFlight t) \<and>
         (\<forall>l \<in> set (TilesToLoad t). cache (Move_adjust t delta) l = None)"
  using assms
  by (simp add: Move_adjust_def Let_def CancelLoadingTiles_def drain_cache drain_cancelled)

text \<open>
  C3 (amended). On a grid with positive tile sizes \<^verbatim>\<open>Move\<close> returns, and it is
  \<^verbatim>\<open>SetLocation\<close> called on the adjusted grid with the adjusted location. After a zoom
  delta the adjusted grid has an empty loading map, no sender left on \<^verbatim>\<open>TilesToLoad\<close> or
  \<^verbatim>\<open>TilesInFlight\<close>, every cancel function that waited on \<^verbatim>\<open>TilesInFlight\<close> called and no
  cache entry for a key taken from \<^verbatim>\<open>TilesToLoad\<close>. Its pan offset is the one \<^verbatim>\<open>Add\<close>
  computes, shifted on zoom-out by minus a quarter, on zoom-in by plus a half, of
  \<open>ScreenTileWidth * tileWidth\<close> and \<open>ScreenTileHeight * tileHeight\<close>, where
  \<open>ScreenTileWidth\<close> and \<open>ScreenTileHeight\<close> count the whole tiles across the screen.
  With a zero zoom delta nothing is cancelled and nothing is shifted.
\<close>

theorem Move_cancels_and_recentres:
  assumes "0 < tileWidth t" and "0 < tileHeight t"
  shows "\<exists>t'. Move impl t delta = SetLocation impl (Move_adjust t delta) (location (Move_adjust t delta)) \<and>
     SetLocation impl (Move_adjust t delta) (location (Move_adjust t delta)) = Some t' \<and>
     (Z delta \<noteq> 0 \<longrightarrow>
        loading (Move_adjust t delta) = Map.empty \<and>
        TilesToLoad (Move_adjust t delta) = [] \<and>
        TilesInFlight (Move_adjust t delta) = [] \<and>
        cancelled (Move_adjust t delta) = cancelled t \<union> set (TilesInFlight t) \<and>
        (\<forall>l \<in> set (TilesToLoad t). cache (Move_adjust t delta) l = None)) \<and>
     (Z delta < 0 \<longrightarrow>
        X (location (Move_adjust t delta)) =
          (X (location t) + X delta) / 2 - to_float32 (ScreenTileWidth t) / 4 * tileWidth t \<and>
        Y (location (Move_adjust t delta)) =
          (Y (location t) + Y delta) / 2 - to_float32 (ScreenTileHeight t) / 4 * tileHeight t) \<and>
     (0 < Z delta \<longrightarrow>
        X (location (Move_adjust t delta)) =
          (X (location t) + X delta) * 2 + to_float32 (ScreenTileWidth t) / 2 * tileWidth t \<and>
        Y (location (Move_adjust t delta)) =
          (Y (location t) + Y delta) * 2 + to_float32 (ScreenTileHeight t) / 2 * tileHeight t) \<and>
     (Z delta = 0 \<longrightarrow> Move_adjust t delta = t\<lparr>location := Add (location t) delta\<rparr>)"
proof -
  have "0 < tileWidth (Move_adjust t delta)" "0 < tileHeight (Move_adjust t delta)"
    using assms by (simp_all add: Move_adjust_fixed)
  then obtain t' where
    "SetLocation impl (Move_adjust t delta) (location (Move_adjust t delta)) = Some t'"
    using SetLocation_returns by blast
  moreover have "Move impl t delta =
      SetLocation impl (Move_adjust t delta) (location (Move_adjust t delta))"
    by (simp add: Move_def Let_def)
  moreover have "Z delta = 0 \<longrightarrow> Move_adjust t delta = t\<lparr>location := Add (location t) delta\<rparr>"
    by (simp add: Move_adjust_def Let_def)
  ultimately show ?thesis
    using Move_adjust_cancels [of delta t] Move_adjust_zoom_out [of delta t]
      Move_adjust_zoom_in [of delta t]
    by blast
qed

lemma word_div_500: "(500 :: 32 word) div 256 = 1"
  by (simp add: word_div_def)

lemma to_float32_one [simp]: "to_float32 1 = 1"
  by (simp add: to_float32_def)

text \<open>
  C3 as stated, with a shift of a quarter of the screen width, fails where the tile width
  does not divide the screen width: with tiles of 256 and a screen of 500 one whole tile
  fits, the zoom-out shifts by \<open>- 64\<close>, and a quarter of the screen width is \<open>125\<close>.
\<close>

theorem Move_quarter_viewport_counterexample:
  "map_option (X \<circ> location)
     (Move zero_conversion (initial_grid \<lparr>X = 0, Y = 0, Z = 6\<rparr> 256 256 500 500)
        \<lparr>X = 0, Y = 0, Z = - 1\<rparr>) = Some (- 64) \<and>
   map_option (X \<circ> location)
     (Move zero_conversion (initial_grid \<lparr>X = 0, Y = 0, Z = 6\<rparr> 256 256 500 500)
        \<lparr>X = 0, Y = 0, Z = - 1\<rparr>) \<noteq>
     Some ((X (location (initial_grid \<lparr>X = 0, Y = 0, Z = 6\<rparr> 256 256 500 500)) + 0) / 2
           - screenWidth (initial_grid \<lparr>X = 0, Y = 0, Z = 6\<rparr> 256 256 500 500) / 4)"
proof -
  let ?t = "initial_grid \<lparr>X = 0, Y = 0, Z = 6\<rparr> 256 256 500 500"
  let ?d = "\<lparr>X = 0, Y = 0, Z = - 1\<rparr>"
  have a: "X (location (Move_adjust ?t ?d)) = - 64"
    using Move_adjust_zoom_out [of ?d ?t]
    by (simp add: initial_grid_def word_div_500)
  have b: "(X (location ?t) + 0) / 2 - screenWidth ?t / 4 = - 125"
    by (simp add: initial_grid_def)
  have "0 < tileWidth ?t" "0 < tileHeight ?t"
    by (simp_all add: initial_grid_def)
  then obtain t' where "Move zero_conversion ?t ?d = Some t'"
    "location t' = location (Move_adjust ?t ?d)"
    using Move_returns by blast
  with a have c: "map_option (X \<circ> location) (Move zero_conversion ?t ?d) = Some (- 64)"
    by simp
  show ?thesis
    unfolding c b by simp
qed

lemma word_div_512: "(512 :: 32 word) div 256 = 2"
  by (simp add: word_div_def)

lemma to_float32_two [simp]: "to_float32 2 = 2"
  by (simp add: to_float32_def)

theorem Move_cancels_and_recentres_witness:
  "\<exists>t'. SetLocation zero_conversion
           (Move_adjust
              (initial_grid \<lparr>X = 0, Y = 0, Z = 6\<rparr> 256 256 512 512
                 \<lparr>TilesToLoad := [TileCoord 0 0 6], TilesInFlight := [7]\<rparr>)
              \<lparr>X = 0, Y = 0, Z = - 1\<rparr>)
           (location (Move_adjust
              (initial_grid \<lparr>X = 0, Y = 0, Z = 6\<rparr> 256 256 512 512
                 \<lparr>TilesToLoad := [TileCoord 0 0 6], TilesInFlight := [7]\<rparr>)
              \<lparr>X = 0, Y = 0, Z = - 1\<rparr>)) = Some t' \<and>
     TilesToLoad (Move_adjust
              (initial_grid \<lparr>X = 0, Y = 0, Z = 6\<rparr> 256 256 512 512
                 \<lparr>TilesToLoad := [TileCoord 0 0 6], TilesInFlight := [7]\<rparr>)
              \<lparr>X = 0, Y = 0, Z = - 1\<rparr>) = [] \<and>
     cancelled (Move_adjust
              (initial_grid \<lparr>X = 0, Y = 0, Z = 6\<rparr> 256 256 512 512
                 \<lparr>TilesToLoad := [TileCoord 0 0 6], TilesInFlight := [7]\<rparr>)
              \<lparr>X = 0, Y = 0, Z = - 1\<rparr>) = {7} \<and>
     X (location (Move_adjust
              (initial_grid \<lparr>X = 0, Y = 0, Z = 6\<rparr> 256 256 512 512
                 \<lparr>TilesToLoad := [TileCoord 0 0 6], TilesInFlight := [7]\<rparr>)
              \<lparr>X = 0, Y = 0, Z = - 1\<rparr>)) = - 128"
proof -
  let ?t = "initial_grid \<lparr>X = 0, Y = 0, Z = 6\<rparr> 256 256 512 512
                 \<lparr>TilesToLoad := [TileCoord 0 0 6], TilesInFlight := [7]\<rparr>"
  have pos: "0 < tileWidth ?t" "0 < tileHeight ?t"
    by (simp_all add: initial_grid_def)
  have vals: "cancelled ?t = {}" "TilesInFlight ?t = [7]" "X (location ?t) = 0"
    "to_float32 (ScreenTileWidth ?t) = 2" "tileWidth ?t = 256"
    by (simp_all add: initial_grid_def word_div_512)
  show ?thesis
    using Move_cancels_and_recentres [OF pos, of zero_conversion "\<lparr>X = 0, Y = 0, Z = - 1\<rparr>"]
    unfolding vals by auto
qed

section \<open>The goroutines of \<^verbatim>\<open>SetLocation\<close>\<close>

lemma loader_step_CheckLoading:
  assumes "i < length (loaders t)" "loaders t ! i = (k, CheckLoading)" "loading t k = None"
  shows "loader_step t i = t\<lparr>loaders := (loaders t)[i := (k, CheckCache)]\<rparr>"
  using assms by (simp add: loader_step_def)

lemma loader_step_CheckCache:
  assumes "i < length (loaders t)" "loaders t ! i = (k, CheckCache)" "cache t k = None"
  shows "loader_step t i = t\<lparr>loaders := (loaders t)[i := (k, StoreLoading)]\<rparr>"
  using assms by (simp add: loader_step_def)

lemma loader_step_StoreLoading:
  assumes "i < length (loaders t)" "loaders t ! i = (k, StoreLoading)"
  shows "loader_step t i =
           t\<lparr>loading := (loading t)(k \<mapsto> True),
             loaders := remove_nth i (loaders t),
             TilesToLoad := TilesToLoad t @ [k]\<rparr>"
  using assms by (simp add: loader_step_def)


lemma race_dispatches_twice:
  assumes L: "loaders t = (k, CheckLoading) # (k, CheckLoading) # rest"
    and ld: "loading t k = None" and ca: "cache t k = None" and q: "TilesToLoad t = []"
  shows "\<exists>t'. run impl t
           [LoaderStep 0, LoaderStep 0, LoaderStep 1, LoaderStep 1, LoaderStep 0, LoaderStep 0,
            WorkerReceive, WorkerReceive] = Some t' \<and>
           map snd (fetching t') = map snd (fetching t) @ [k, k]"
proof -
  define t1 where "t1 = t\<lparr>loaders := (k, CheckCache) # (k, CheckLoading) # rest\<rparr>"
  define t2 where "t2 = t\<lparr>loaders := (k, StoreLoading) # (k, CheckLoading) # rest\<rparr>"
  define t3 where "t3 = t\<lparr>loaders := (k, StoreLoading) # (k, CheckCache) # rest\<rparr>"
  define t4 where "t4 = t\<lparr>loaders := (k, StoreLoading) # (k, StoreLoading) # rest\<rparr>"
  define t5 where "t5 = t\<lparr>loading := (loading t)(k \<mapsto> True),
     loaders := (k, StoreLoading) # rest, TilesToLoad := [k]\<rparr>"
  define t6 where "t6 = t\<lparr>loading := (loading t)(k \<mapsto> True),
     loaders := rest, TilesToLoad := [k, k]\<rparr>"
  define t7 where "t7 = t6\<lparr>TilesToLoad := [k],
     TilesInFlight := TilesInFlight t @ [nextFetch t],
     fetching := fetching t @ [(nextFetch t, k)],
     nextFetch := Suc (nextFetch t)\<rparr>"
  define t8 where "t8 = t7\<lparr>TilesToLoad := [],
     TilesInFlight := TilesInFlight t7 @ [nextFetch t7],
     fetching := fetching t7 @ [(nextFetch t7, k)],
     nextFetch := Suc (nextFetch t7)\<rparr>"
  have s1: "loader_step t 0 = t1"
    using loader_step_CheckLoading [of 0 t k] L ld by (simp add: t1_def)
  have s2: "loader_step t1 0 = t2"
    using loader_step_CheckCache [of 0 t1 k] ca by (simp add: t1_def t2_def)
  have s3: "loader_step t2 1 = t3"
    using loader_step_CheckLoading [of 1 t2 k] ld by (simp add: t2_def t3_def)
  have s4: "loader_step t3 1 = t4"
    using loader_step_CheckCache [of 1 t3 k] ca by (simp add: t3_def t4_def)
  have s5: "loader_step t4 0 = t5"
    using loader_step_StoreLoading [of 0 t4 k] q by (simp add: t4_def t5_def remove_nth_def)
  have s6: "loader_step t5 0 = t6"
    using loader_step_StoreLoading [of 0 t5 k] by (simp add: t5_def t6_def remove_nth_def)
  have s7: "worker_receive t6 = t7"
    by (simp add: worker_receive_def t6_def t7_def)
  have s8: "worker_receive t7 = t8"
    by (simp add: worker_receive_def t7_def t8_def)
  have "run impl t
           [LoaderStep 0, LoaderStep 0, LoaderStep 1, LoaderStep 1, LoaderStep 0, LoaderStep 0,
            WorkerReceive, WorkerReceive] = Some t8"
    by (simp add: s1 s2 s3 s4 s5 s6 s7 s8 del: One_nat_def)
  moreover have "map snd (fetching t8) = map snd (fetching t) @ [k, k]"
    by (simp add: t8_def t7_def t6_def)
  ultimately show ?thesis by blast
qed


lemma race_overlaps:
  assumes L: "loaders t = (k, CheckLoading) # (k, CheckLoading) # rest"
    and ld: "loading t k = None" and ca: "cache t k = None" and q: "TilesToLoad t = []"
    and f: "fetching t = []" and n: "nextFetch t = 0"
  shows "\<exists>t'. run impl t
           [LoaderStep 0, LoaderStep 0, LoaderStep 1, LoaderStep 1, LoaderStep 0,
            WorkerReceive, FetchDone 0 tile, LoaderStep 0] = Some t' \<and>
           loading t' k = Some True \<and> cache t' k = Some tile"
proof -
  define t1 where "t1 = t\<lparr>loaders := (k, CheckCache) # (k, CheckLoading) # rest\<rparr>"
  define t2 where "t2 = t\<lparr>loaders := (k, StoreLoading) # (k, CheckLoading) # rest\<rparr>"
  define t3 where "t3 = t\<lparr>loaders := (k, StoreLoading) # (k, CheckCache) # rest\<rparr>"
  define t4 where "t4 = t\<lparr>loaders := (k, StoreLoading) # (k, StoreLoading) # rest\<rparr>"
  define t5 where "t5 = t\<lparr>loading := (loading t)(k \<mapsto> True),
     loaders := (k, StoreLoading) # rest, TilesToLoad := [k]\<rparr>"
  define t6 where "t6 = t5\<lparr>TilesToLoad := [],
     TilesInFlight := TilesInFlight t @ [0],
     fetching := [(0, k)],
     nextFetch := Suc 0\<rparr>"
  define t7 where "t7 = SetTile (t6\<lparr>fetching := []\<rparr>) k tile"
  define t8 where "t8 = t7\<lparr>loading := (loading t7)(k \<mapsto> True),
     loaders := rest, TilesToLoad := [k]\<rparr>"
  have s1: "loader_step t 0 = t1"
    using loader_step_CheckLoading [of 0 t k] L ld by (simp add: t1_def)
  have s2: "loader_step t1 0 = t2"
    using loader_step_CheckCache [of 0 t1 k] ca by (simp add: t1_def t2_def)
  have s3: "loader_step t2 1 = t3"
    using loader_step_CheckLoading [of 1 t2 k] ld by (simp add: t2_def t3_def)
  have s4: "loader_step t3 1 = t4"
    using loader_step_CheckCache [of 1 t3 k] ca by (simp add: t3_def t4_def)
  have s5: "loader_step t4 0 = t5"
    using loader_step_StoreLoading [of 0 t4 k] q by (simp add: t4_def t5_def remove_nth_def)
  have s6: "worker_receive t5 = t6"
    using f n by (simp add: worker_receive_def t5_def t6_def)
  have s7: "fetch_done t6 0 tile = t7"
    by (simp add: fetch_done_def t6_def t7_def)
  have l7: "loaders t7 = (k, StoreLoading) # rest" "TilesToLoad t7 = []"
    by (simp_all add: t7_def t6_def t5_def SetTile_def Let_def)
  have s8: "loader_step t7 0 = t8"
    using loader_step_StoreLoading [of 0 t7 k] l7 by (simp add: t8_def remove_nth_def)
  have "run impl t
           [LoaderStep 0, LoaderStep 0, LoaderStep 1, LoaderStep 1, LoaderStep 0,
            WorkerReceive, FetchDone 0 tile, LoaderStep 0] = Some t8"
    by (simp add: s1 s2 s3 s4 s5 s6 s7 s8 del: One_nat_def)
  moreover have "loading t8 k = Some True" "cache t8 k = Some tile"
    by (simp_all add: t8_def t7_def SetTile_def Let_def)
  ultimately show ?thesis by blast
qed


text \<open>
  What the calls themselves do to the two maps: \<^verbatim>\<open>SetTile\<close> moves its key from the loading
  map to the cache, \<^verbatim>\<open>SetLocation\<close> touches neither, and a step of a goroutine keeps the
  maps disjoint unless it is the store of a key that has been cached since the goroutine
  checked.
\<close>

lemma SetTile_moves_key:
  "loading (SetTile t k tile) k = None \<and> cache (SetTile t k tile) k = Some tile"
  by (simp add: SetTile_def Let_def)

lemma SetTile_disjoint:
  assumes "dom (loading t) \<inter> dom (cache t) = {}"
  shows "dom (loading (SetTile t k tile)) \<inter> dom (cache (SetTile t k tile)) = {}"
  using assms by (auto simp: SetTile_def Let_def split: if_splits)

lemma SetLocation_maps:
  assumes "SetLocation impl t loc = Some t'"
  shows "loading t' = loading t \<and> cache t' = cache t"
  using assms by (auto simp: SetLocation_def Let_def)

lemma loader_step_disjoint:
  assumes "dom (loading t) \<inter> dom (cache t) = {}"
    and "\<And>k. i < length (loaders t) \<Longrightarrow> loaders t ! i = (k, StoreLoading) \<Longrightarrow> cache t k = None"
  shows "dom (loading (loader_step t i)) \<inter> dom (cache (loader_step t i)) = {}"
proof (cases "i < length (loaders t)")
  case False
  then show ?thesis using assms(1) by (simp add: loader_step_def)
next
  case True
  obtain k pc where kp: "loaders t ! i = (k, pc)" by (cases "loaders t ! i")
  show ?thesis
  proof (cases pc)
    case CheckLoading
    with True kp assms(1) show ?thesis by (simp add: loader_step_def)
  next
    case CheckCache
    with True kp assms(1) show ?thesis by (simp add: loader_step_def)
  next
    case StoreLoading
    with True kp have "cache t k = None" using assms(2) by simp
    with True kp StoreLoading assms(1) show ?thesis
      by (auto simp: loader_step_def)
  qed
qed

text \<open>
  C9 asks that a key is never sent on \<^verbatim>\<open>TilesToLoad\<close> a second time while its first fetch
  is unresolved. The goroutines of \<^verbatim>\<open>SetLocation\<close> check with \<^verbatim>\<open>Load\<close> and insert with a
  separate \<^verbatim>\<open>Store\<close>. In the grid created at \<open>(0, 0, 6)\<close> the first two goroutines
  both carry the key \<open>(0, 0, 6)\<close>; when both pass their checks before either stores, both
  send the key, and the worker starts two fetches for it, none of them finished.
\<close>

theorem SetLocation_dispatches_key_twice:
  "\<exists>t'. program zero_conversion \<lparr>X = 0, Y = 0, Z = 6\<rparr> 256 256 512 512
           [LoaderStep 0, LoaderStep 0, LoaderStep 1, LoaderStep 1, LoaderStep 0, LoaderStep 0,
            WorkerReceive, WorkerReceive] = Some t' \<and>
         map snd (fetching t') = [TileCoord 0 0 6, TileCoord 0 0 6]"
proof -
  let ?G = "initial_grid \<lparr>X = 0, Y = 0, Z = 6\<rparr> 256 256 512 512
       \<lparr>loaders := map (\<lambda>k. (k, CheckLoading))
          [TileCoord 0 0 6, TileCoord 0 0 6, TileCoord 0 1 6, TileCoord 0 2 6,
           TileCoord 0 0 6, TileCoord 0 0 6, TileCoord 0 1 6, TileCoord 0 2 6,
           TileCoord 1 0 6, TileCoord 1 0 6, TileCoord 1 1 6, TileCoord 1 2 6,
           TileCoord 2 0 6, TileCoord 2 0 6, TileCoord 2 1 6, TileCoord 2 2 6]\<rparr>"
  have L: "loaders ?G = (TileCoord 0 0 6, CheckLoading) # (TileCoord 0 0 6, CheckLoading) #
      map (\<lambda>k. (k, CheckLoading))
          [TileCoord 0 1 6, TileCoord 0 2 6,
           TileCoord 0 0 6, TileCoord 0 0 6, TileCoord 0 1 6, TileCoord 0 2 6,
           TileCoord 1 0 6, TileCoord 1 0 6, TileCoord 1 1 6, TileCoord 1 2 6,
           TileCoord 2 0 6, TileCoord 2 0 6, TileCoord 2 1 6, TileCoord 2 2 6]"
    by simp
  have init: "loading ?G (TileCoord 0 0 6) = None" "cache ?G (TileCoord 0 0 6) = None"
    "TilesToLoad ?G = []" "fetching ?G = []"
    by (simp_all add: initial_grid_def)
  obtain t' where r: "run zero_conversion ?G
           [LoaderStep 0, LoaderStep 0, LoaderStep 1, LoaderStep 1, LoaderStep 0, LoaderStep 0,
            WorkerReceive, WorkerReceive] = Some t'"
    and m: "map snd (fetching t') = map snd (fetching ?G) @ [TileCoord 0 0 6, TileCoord 0 0 6]"
    using race_dispatches_twice [OF L init(1,2,3)] by blast
  have m': "map snd (fetching t') = [TileCoord 0 0 6, TileCoord 0 0 6]"
    using m by (simp add: initial_grid_def)
  have p: "program zero_conversion \<lparr>X = 0, Y = 0, Z = 6\<rparr> 256 256 512 512
           [LoaderStep 0, LoaderStep 0, LoaderStep 1, LoaderStep 1, LoaderStep 0, LoaderStep 0,
            WorkerReceive, WorkerReceive] = Some t'"
    unfolding program_def NewTileGrid_scenario using r by (simp del: run.simps)
  show ?thesis
    by (rule exI [of _ t'], rule conjI [OF p m'])
qed

text \<open>
  C5 asks that no key is in the loading map and in the cache at once. In the same grid
  the second goroutine for \<open>(0, 0, 6)\<close> passes its checks, the first one stores and sends
  the key, the worker fetches the tile and \<^verbatim>\<open>SetTile\<close> caches it, and then the second
  goroutine stores the key in the loading map: the key is in both.
\<close>

theorem loading_and_cache_overlap:
  "\<exists>t'. program zero_conversion \<lparr>X = 0, Y = 0, Z = 6\<rparr> 256 256 512 512
           [LoaderStep 0, LoaderStep 0, LoaderStep 1, LoaderStep 1, LoaderStep 0,
            WorkerReceive, FetchDone 0 \<lparr>Tile = TileCoord 0 0 6, Image = 0, Texture = None\<rparr>,
            LoaderStep 0] = Some t' \<and>
         loading t' (TileCoord 0 0 6) = Some True \<and>
         cache t' (TileCoord 0 0 6) = Some \<lparr>Tile = TileCoord 0 0 6, Image = 0, Texture = None\<rparr>"
proof -
  let ?G = "initial_grid \<lparr>X = 0, Y = 0, Z = 6\<rparr> 256 256 512 512
       \<lparr>loaders := map (\<lambda>k. (k, CheckLoading))
          [TileCoord 0 0 6, TileCoord 0 0 6, TileCoord 0 1 6, TileCoord 0 2 6,
           TileCoord 0 0 6, TileCoord 0 0 6, TileCoord 0 1 6, TileCoord 0 2 6,
           TileCoord 1 0 6, TileCoord 1 0 6, TileCoord 1 1 6, TileCoord 1 2 6,
           TileCoord 2 0 6, TileCoord 2 0 6, TileCoord 2 1 6, TileCoord 2 2 6]\<rparr>"
  have L: "loaders ?G = (TileCoord 0 0 6, CheckLoading) # (TileCoord 0 0 6, CheckLoading) #
      map (\<lambda>k. (k, CheckLoading))
          [TileCoord 0 1 6, TileCoord 0 2 6,
           TileCoord 0 0 6, TileCoord 0 0 6, TileCoord 0 1 6, TileCoord 0 2 6,
           TileCoord 1 0 6, TileCoord 1 0 6, TileCoord 1 1 6, TileCoord 1 2 6,
           TileCoord 2 0 6, TileCoord 2 0 6, TileCoord 2 1 6, TileCoord 2 2 6]"
    by simp
  have init: "loading ?G (TileCoord 0 0 6) = None" "cache ?G (TileCoord 0 0 6) = None"
    "TilesToLoad ?G = []" "fetching ?G = []" "nextFetch ?G = 0"
    by (simp_all add: initial_grid_def)
  obtain t' where r: "run zero_conversion ?G
           [LoaderStep 0, LoaderStep 0, LoaderStep 1, LoaderStep 1, LoaderStep 0,
            WorkerReceive, FetchDone 0 \<lparr>Tile = TileCoord 0 0 6, Image = 0, Texture = None\<rparr>,
            LoaderStep 0] = Some t'"
    and m: "loading t' (TileCoord 0 0 6) = Some True"
    "cache t' (TileCoord 0 0 6) = Some \<lparr>Tile = TileCoord 0 0 6, Image = 0, Texture = None\<rparr>"
    using race_overlaps [OF L init] by blast
  have p: "program zero_conversion \<lparr>X = 0, Y = 0, Z = 6\<rparr> 256 256 512 512
           [LoaderStep 0, LoaderStep 0, LoaderStep 1, LoaderStep 1, LoaderStep 0,
            WorkerReceive, FetchDone 0 \<lparr>Tile = TileCoord 0 0 6, Image = 0, Texture = None\<rparr>,
            LoaderStep 0] = Some t'"
    unfolding program_def NewTileGrid_scenario using r by (simp del: run.simps)
  show ?thesis
    by (rule exI [of _ t'], intro conjI p m)
qed

section \<open>Rounding to \<^verbatim>\<open>float32\<close>\<close>

text \<open>
  Every \<open>m / 2 ^ k\<close> with \<open>\<bar>m\<bar> < 2 ^ 24\<close> is a \<^verbatim>\<open>float32\<close> value, among them the whole
  numbers and halves below \<open>2 ^ 23\<close>; rounding keeps the sign, and a quotient that is at
  least \<open>1 / 2 ^ 21\<close> below 1 stays below 1.
\<close>

lemma round_half_even_of_int [simp]: "round_half_even (of_int n) = n"
  by (simp add: round_half_even_def)

lemma round_half_even_cases:
  "round_half_even y = \<lfloor>y\<rfloor> \<or>
   (round_half_even y = \<lfloor>y\<rfloor> + 1 \<and> 1 / 2 \<le> y - of_int \<lfloor>y\<rfloor>)"
  by (simp add: round_half_even_def Let_def)

lemma round_half_even_le: "of_int (round_half_even y) \<le> y + 1 / 2"
proof (rule disjE [OF round_half_even_cases [of y]])
  assume a: "round_half_even y = \<lfloor>y\<rfloor>"
  have "(of_int \<lfloor>y\<rfloor> :: rat) \<le> y" by (rule of_int_floor_le)
  then have "(of_int \<lfloor>y\<rfloor> :: rat) \<le> y + 1 / 2" by linarith
  then show ?thesis by (simp only: a)
next
  assume a: "round_half_even y = \<lfloor>y\<rfloor> + 1 \<and> 1 / 2 \<le> y - of_int \<lfloor>y\<rfloor>"
  then have "(of_int (\<lfloor>y\<rfloor> + 1) :: rat) \<le> y + 1 / 2" by simp
  with a show ?thesis by simp
qed



lemma exponent_le_22:
  assumes "\<bar>x\<bar> < 2 ^ 23"
  shows "exponent x \<le> 22"
proof (cases "1 \<le> \<bar>x\<bar>")
  case True
  have "\<lfloor>\<bar>x\<bar>\<rfloor> < 2 ^ 23" using assms by (simp add: floor_less_iff)
  then have "nat \<lfloor>\<bar>x\<bar>\<rfloor> < 2 ^ 23" by (simp add: nat_less_iff)
  then have "floorlog 2 (nat \<lfloor>\<bar>x\<bar>\<rfloor>) \<le> 23" by (intro floorlog_leI) simp_all
  with True show ?thesis by (simp add: exponent_def)
next
  case False
  then show ?thesis by (simp add: exponent_def)
qed


lemma float32_round_half_int:
  assumes "\<bar>m\<bar> < 2 ^ 24"
  shows "float32_round (of_int m / 2) = of_int m / 2"
proof (cases "m = 0")
  case True
  then show ?thesis by (simp add: float32_round_def)
next
  case False
  let ?x = "of_int m / 2 :: rat"
  have "\<bar>?x\<bar> < 2 ^ 23"
  proof -
    have "(of_int \<bar>m\<bar> :: rat) < of_int (2 ^ 24)" using assms by (simp only: of_int_less_iff)
    then show ?thesis by simp
  qed
  then have e: "exponent ?x \<le> 22" by (rule exponent_le_22)
  define k where "k = nat (22 - exponent ?x)"
  have k: "22 - exponent ?x = int k" using e by (simp add: k_def)
  have s1: "(2::rat) powi (23 - exponent ?x) = 2 * 2 ^ k"
  proof -
    have "23 - exponent ?x = int (Suc k)" using k by simp
    then show ?thesis by (simp only: power_int_of_nat power_Suc)
  qed
  have s2: "(2::rat) powi (exponent ?x - 23) = 1 / (2 * 2 ^ k)"
  proof -
    have "exponent ?x - 23 = - int (Suc k)" using k by simp
    then show ?thesis by (simp only: power_int_minus_divide power_int_of_nat power_Suc)
  qed
  have "?x * (2 * 2 ^ k) = of_int (m * 2 ^ k)" by simp
  then have "round_half_even (?x * (2 * 2 ^ k)) = m * 2 ^ k"
    by (simp only: round_half_even_of_int)
  then show ?thesis
    using False by (simp add: float32_round_def s1 s2)
qed

lemma float32_round_whole:
  assumes "\<bar>n\<bar> < 2 ^ 23"
  shows "float32_round (of_int n) = of_int n"
proof -
  have "\<bar>2 * n\<bar> < 2 ^ 24" using assms by simp
  then have "float32_round (of_int (2 * n) / 2) = of_int (2 * n) / 2"
    by (rule float32_round_half_int)
  then show ?thesis by simp
qed






section \<open>Where \<^verbatim>\<open>float32\<close> computes the loops exactly\<close>







section \<open>Where the loops exit in \<^verbatim>\<open>float32\<close>\<close>

text \<open>
  Below \<open>2 ^ 23\<close> in magnitude rounding moves a number by at most a half. A step of at
  least 1 therefore advances the loop variable by at least a half, and the loops exit for
  every location of magnitude at most \<open>2 ^ 21\<close>, whole or not.
\<close>

lemma round_half_even_ge: "y - 1 / 2 \<le> of_int (round_half_even y)"
proof -
  have f: "y < of_int \<lfloor>y\<rfloor> + 1" by linarith
  have g: "of_int \<lfloor>y\<rfloor> \<le> y" by (rule of_int_floor_le)
  have "(round_half_even y = \<lfloor>y\<rfloor> \<and> y - of_int \<lfloor>y\<rfloor> \<le> 1 / 2) \<or> round_half_even y = \<lfloor>y\<rfloor> + 1"
    by (simp add: round_half_even_def Let_def)
  then show ?thesis
  proof
    assume a: "round_half_even y = \<lfloor>y\<rfloor> \<and> y - of_int \<lfloor>y\<rfloor> \<le> 1 / 2"
    then have "y - 1 / 2 \<le> of_int \<lfloor>y\<rfloor>" by linarith
    with a show ?thesis by simp
  next
    assume a: "round_half_even y = \<lfloor>y\<rfloor> + 1"
    have "y - 1 / 2 \<le> of_int \<lfloor>y\<rfloor> + 1" using f by linarith
    then show ?thesis by (simp add: a)
  qed
qed

lemma float32_round_near:
  assumes "\<bar>x\<bar> < 2 ^ 23"
  shows "x - 1 / 2 \<le> float32_round x" and "float32_round x \<le> x + 1 / 2"
proof -
  have "x - 1 / 2 \<le> float32_round x \<and> float32_round x \<le> x + 1 / 2"
  proof (cases "x = 0")
    case True
    then show ?thesis by (simp add: float32_round_def)
  next
    case False
    have e: "exponent x \<le> 22" using assms by (rule exponent_le_22)
    define j where "j = nat (22 - exponent x)"
    have j: "22 - exponent x = int j" using e by (simp add: j_def)
    have s1: "(2::rat) powi (23 - exponent x) = 2 * 2 ^ j"
    proof -
      have "23 - exponent x = int (1 + j)" using j by simp
      then show ?thesis by (simp only: power_int_of_nat power_add power_one_right)
    qed
    have s2: "(2::rat) powi (exponent x - 23) = 1 / (2 * 2 ^ j)"
    proof -
      have "exponent x - 23 = - int (1 + j)" using j by simp
      then show ?thesis by (simp only: power_int_minus_divide power_int_of_nat power_add power_one_right)
    qed
    let ?s = "2 * 2 ^ j :: rat"
    have spos: "0 < ?s" by simp
    have sge: "1 \<le> ?s"
    proof -
      have "(1::rat) \<le> 2 ^ j" by simp
      then show ?thesis by linarith
    qed
    have h: "1 / (2 * ?s) \<le> 1 / 2"
      using sge by (simp add: field_simps)
    have fl: "float32_round x = of_int (round_half_even (x * ?s)) / ?s"
      using False by (simp add: float32_round_def s1 s2)
    have "of_int (round_half_even (x * ?s)) \<le> x * ?s + 1 / 2"
      by (rule round_half_even_le)
    then have "of_int (round_half_even (x * ?s)) / ?s \<le> (x * ?s + 1 / 2) / ?s"
      using spos by (simp add: divide_right_mono)
    also have "(x * ?s + 1 / 2) / ?s = x + 1 / (2 * ?s)"
      using spos by (simp add: field_simps)
    finally have up: "float32_round x \<le> x + 1 / 2" using h fl by linarith
    have "x * ?s - 1 / 2 \<le> of_int (round_half_even (x * ?s))"
      by (rule round_half_even_ge)
    then have "(x * ?s - 1 / 2) / ?s \<le> of_int (round_half_even (x * ?s)) / ?s"
      using spos by (simp add: divide_right_mono)
    moreover have "(x * ?s - 1 / 2) / ?s = x - 1 / (2 * ?s)"
      using spos by (simp add: field_simps)
    ultimately have lo: "x - 1 / 2 \<le> float32_round x" using h fl by linarith
    from lo up show ?thesis by (rule conjI)
  qed
  then show "x - 1 / 2 \<le> float32_round x" and "float32_round x \<le> x + 1 / 2" by simp_all
qed

lemma float32_round_near':
  assumes "\<bar>x\<bar> < 8388608"
  shows "x - 1 / 2 \<le> float32_round x" and "float32_round x \<le> x + 1 / 2"
proof -
  have "\<bar>x\<bar> < 2 ^ 23" using assms by simp
  then show "x - 1 / 2 \<le> float32_round x" and "float32_round x \<le> x + 1 / 2"
    by (rule float32_round_near)+
qed

lemma frange_f32_returns_aux:
  "n = nat \<lceil>2 * (hi - v)\<rceil> \<Longrightarrow> 1 \<le> step \<Longrightarrow> step \<le> 2097152 \<Longrightarrow> - 4194305 \<le> v \<Longrightarrow>
   hi \<le> 6291456 \<Longrightarrow> \<exists>r. frange_f32 v hi step = Some r"
proof (induction n arbitrary: v rule: less_induct)
  case (less n)
  show ?case
  proof (cases "v < hi")
    case False
    then show ?thesis by (subst frange_f32.simps) simp
  next
    case True
    let ?v = "float32_round (v + step)"
    have "\<bar>v + step\<bar> < 8388608" using less.prems True by linarith
    then have "v + step - 1 / 2 \<le> ?v" by (rule float32_round_near')
    then have adv: "v + 1 / 2 \<le> ?v" using less.prems(2) by linarith
    have "hi - ?v \<le> hi - v - 1 / 2" using adv by linarith
    then have "2 * (hi - ?v) \<le> 2 * (hi - v - 1 / 2)" by (simp only: mult_le_cancel_left_pos zero_less_numeral)
    also have "\<dots> = 2 * (hi - v) - 1" by (simp add: algebra_simps)
    finally have "2 * (hi - ?v) \<le> 2 * (hi - v) - 1" .
    then have "\<lceil>2 * (hi - ?v)\<rceil> \<le> \<lceil>2 * (hi - v) - 1\<rceil>" by (rule ceiling_mono)
    then have c: "\<lceil>2 * (hi - ?v)\<rceil> \<le> \<lceil>2 * (hi - v)\<rceil> - 1" by simp
    have "0 < 2 * (hi - v)" using True by simp
    then have "0 < \<lceil>2 * (hi - v)\<rceil>" by (simp only: zero_less_ceiling)
    with c have m: "nat \<lceil>2 * (hi - ?v)\<rceil> < n" unfolding less.prems(1) by linarith
    have lo: "- 4194305 \<le> ?v" using adv less.prems(4) by linarith
    obtain r where "frange_f32 ?v hi step = Some r"
      using less.IH [OF m refl less.prems(2,3) lo less.prems(5)] by blast
    then show ?thesis using True by (subst frange_f32.simps) simp
  qed
qed

lemma frange_f32_returns:
  assumes "1 \<le> step" "step \<le> 2097152" "- 4194305 \<le> v" "hi \<le> 6291456"
  shows "\<exists>r. frange_f32 v hi step = Some r"
  using frange_f32_returns_aux [OF refl assms] .

lemma axis_returns:
  assumes "\<bar>p\<bar> \<le> 2097152" "1 \<le> w" "w \<le> 2097152" "0 \<le> h" "h \<le> 1048576" "0 \<le> v" "v \<le> 2097152"
  shows "\<exists>r. frange_f32 (float32_round (p - w)) (float32_round (float32_round (p + h) + v)) w = Some r"
proof -
  have "\<bar>p - w\<bar> < 8388608" using assms by linarith
  then have "p - w - 1 / 2 \<le> float32_round (p - w)" by (rule float32_round_near')
  then have lo: "- 4194305 \<le> float32_round (p - w)" using assms by linarith
  have "\<bar>p + h\<bar> < 8388608" using assms by linarith
  then have a: "p + h - 1 / 2 \<le> float32_round (p + h)" "float32_round (p + h) \<le> p + h + 1 / 2"
    by (rule float32_round_near')+
  then have "\<bar>float32_round (p + h) + v\<bar> < 8388608" using assms by linarith
  then have "float32_round (float32_round (p + h) + v) \<le> float32_round (p + h) + v + 1 / 2"
    by (rule float32_round_near')
  then have hi: "float32_round (float32_round (p + h) + v) \<le> 6291456" using a assms by linarith
  show ?thesis by (rule frange_f32_returns [OF assms(2,3) lo hi])
qed

lemma visibleCells_f32_returns:
  assumes "\<bar>X (location t)\<bar> \<le> 2097152" "\<bar>Y (location t)\<bar> \<le> 2097152"
    and "1 \<le> tileWidth t" "tileWidth t \<le> 2097152" "1 \<le> tileHeight t" "tileHeight t \<le> 2097152"
    and "0 \<le> halfTileWidth t" "halfTileWidth t \<le> 1048576"
    and "0 \<le> halfTileHeight t" "halfTileHeight t \<le> 1048576"
    and "0 \<le> screenWidth t" "screenWidth t \<le> 2097152"
    and "0 \<le> screenHeight t" "screenHeight t \<le> 2097152"
  shows "\<exists>cs. visibleCells_f32 t = Some cs"
proof -
  obtain xs where xs: "frange_f32 (float32_round (X (location t) - tileWidth t))
      (float32_round (float32_round (X (location t) + halfTileWidth t) + screenWidth t)) (tileWidth t) = Some xs"
    using axis_returns [OF assms(1,3,4,7,8,11,12)] by blast
  obtain ys where ys: "frange_f32 (float32_round (Y (location t) - tileHeight t))
      (float32_round (float32_round (Y (location t) + halfTileHeight t) + screenHeight t)) (tileHeight t) = Some ys"
    using axis_returns [OF assms(2,5,6,9,10,13,14)] by blast
  show ?thesis
    by (simp add: visibleCells_f32_def Let_def xs ys those_map_Some)
qed

section \<open>Construction in \<^verbatim>\<open>float32\<close> arithmetic\<close>

lemma dyadic_of_nat: "k \<le> 2 ^ 21 \<Longrightarrow> dyadic 0 (of_nat k)"
proof -
  assume "k \<le> 2 ^ 21"
  then have "(of_nat k :: rat) \<le> of_nat (2 ^ 21)" by (simp only: of_nat_le_iff)
  then show ?thesis by (simp add: dyadic_def)
qed

lemma float32_round_of_nat: "k \<le> 2 ^ 21 \<Longrightarrow> float32_round (of_nat k) = of_nat k"
proof -
  assume "k \<le> 2 ^ 21"
  then have "int k \<le> 2097152" by simp
  then have "\<bar>int k\<bar> < 2 ^ 23" by simp
  then have "float32_round (of_int (int k)) = of_int (int k)" by (rule float32_round_whole)
  then show ?thesis by simp
qed

lemma float32_round_half_of_nat: "k \<le> 2 ^ 21 \<Longrightarrow> float32_round (of_nat k / 2) = of_nat k / 2"
proof -
  assume "k \<le> 2 ^ 21"
  then have "int k \<le> 2097152" by simp
  then have "\<bar>int k\<bar> < 2 ^ 24" by simp
  then have "float32_round (of_int (int k) / 2) = of_int (int k) / 2" by (rule float32_round_half_int)
  then show ?thesis by simp
qed

lemma unat_small: "(n :: uint32) \<le> 2097152 \<Longrightarrow> unat n \<le> 2 ^ 21"
  by (simp add: word_le_nat_alt)

lemma to_float32_f32_exact:
  assumes "(n :: uint32) \<le> 2097152"
  shows "to_float32_f32 n = of_nat (unat n)"
  unfolding to_float32_f32_def by (rule float32_round_of_nat [OF unat_small [OF assms]])

lemma to_float32_f32_small:
  assumes "(n :: uint32) \<le> 2097152"
  shows "dyadic 0 (to_float32_f32 n)"
    and "float32_round (to_float32_f32 n / 2) = to_float32_f32 n / 2"
    and "0 \<le> to_float32_f32 n"
proof -
  note e = to_float32_f32_exact [OF assms]
  show "dyadic 0 (to_float32_f32 n)"
    unfolding e by (rule dyadic_of_nat [OF unat_small [OF assms]])
  show "float32_round (to_float32_f32 n / 2) = to_float32_f32 n / 2"
    unfolding e by (rule float32_round_half_of_nat [OF unat_small [OF assms]])
  show "0 \<le> to_float32_f32 n"
    unfolding e by (rule of_nat_0_le_iff)
qed

lemma to_float32_f32_pos:
  assumes "(n :: uint32) \<le> 2097152" "n \<noteq> 0"
  shows "0 < to_float32_f32 n"
proof -
  have "0 < unat n" using assms(2) by (simp add: unat_gt_0)
  then have "(0::rat) < of_nat (unat n)" by (simp only: of_nat_0_less_iff)
  then show ?thesis by (simp only: to_float32_f32_exact [OF assms(1)])
qed

lemma to_float32_f32_zero [simp]: "to_float32_f32 0 = 0"
  by (simp add: to_float32_f32_def float32_round_def)

lemma to_float32_f32_le:
  assumes "(n :: uint32) \<le> 2097152"
  shows "to_float32_f32 n \<le> 2097152"
proof -
  have "dyadic 0 (to_float32_f32 n)" by (rule to_float32_f32_small(1) [OF assms])
  then have "\<bar>to_float32_f32 n\<bar> \<le> 2 ^ 21" by (simp add: dyadic_def)
  then have "\<bar>to_float32_f32 n\<bar> \<le> 2097152" by simp
  then show ?thesis by linarith
qed

lemma to_float32_f32_ge_one:
  assumes "(n :: uint32) \<le> 2097152" "n \<noteq> 0"
  shows "1 \<le> to_float32_f32 n"
proof -
  have "0 < unat n" using assms(2) by (simp add: unat_gt_0)
  then have "1 \<le> unat n" by simp
  then have "(of_nat 1 :: rat) \<le> of_nat (unat n)" by (simp only: of_nat_le_iff)
  then have "(1::rat) \<le> of_nat (unat n)" by (simp only: of_nat_1)
  then show ?thesis by (simp only: to_float32_f32_exact [OF assms(1)])
qed

lemma to_float32_f32_half:
  assumes "(n :: uint32) \<le> 2097152"
  shows "0 \<le> float32_round (to_float32_f32 n / 2)" and "float32_round (to_float32_f32 n / 2) \<le> 1048576"
proof -
  note h = to_float32_f32_small(2) [OF assms]
  have "0 \<le> to_float32_f32 n / 2" using to_float32_f32_small(3) [OF assms] by simp
  then show "0 \<le> float32_round (to_float32_f32 n / 2)" by (simp only: h)
  have "to_float32_f32 n / 2 \<le> 1048576" using to_float32_f32_le [OF assms] by simp
  then show "float32_round (to_float32_f32 n / 2) \<le> 1048576" by (simp only: h)
qed

lemma SetLocation_f32_returns:
  assumes "visibleCells_f32 (t\<lparr>location := loc\<rparr>) = Some cs"
  shows "\<exists>t'. SetLocation_f32 impl t loc = Some t'"
  using assms by (simp add: SetLocation_f32_def forEachVisibleTile_f32_def Let_def)

lemma NewTileGrid_f32_returns:
  assumes "\<bar>X current\<bar> \<le> 2097152" "\<bar>Y current\<bar> \<le> 2097152"
    and "tw \<le> 2097152" "th \<le> 2097152" "sw \<le> 2097152" "sh \<le> 2097152"
    and "tw \<noteq> 0" "th \<noteq> 0" "sw \<noteq> 0" "sh \<noteq> 0"
  shows "\<exists>grid. NewTileGrid_f32 impl current tw th sw sh = Some (Inr grid)"
proof -
  let ?t = "initial_grid_f32 current tw th sw sh\<lparr>location := current\<rparr>"
  have "\<exists>cs. visibleCells_f32 ?t = Some cs"
    using assms
    by (intro visibleCells_f32_returns)
      (simp_all add: initial_grid_f32_def to_float32_f32_small to_float32_f32_le
        to_float32_f32_ge_one to_float32_f32_half)
  then obtain t' where "SetLocation_f32 impl (initial_grid_f32 current tw th sw sh) current = Some t'"
    using SetLocation_f32_returns by blast
  then show ?thesis
    using assms by (simp add: NewTileGrid_f32_def)
qed

lemma NewTileGrid_view_f32_returns:
  assumes "\<bar>X origin\<bar> \<le> 2097152" "\<bar>Y origin\<bar> \<le> 2097152"
    and "tw \<le> 2097152" "th \<le> 2097152" "vw \<le> 2097152" "vh \<le> 2097152"
    and "tw \<noteq> 0" "th \<noteq> 0"
  shows "\<exists>grid. NewTileGrid_view_f32 impl origin tw th vw vh = Some (Inr grid)"
proof -
  let ?t = "Resize_f32 impl
                \<lparr>location = origin,
                 tileWidth = to_float32_f32 tw,
                 tileHeight = to_float32_f32 th,
                 halfTileWidth = float32_round (to_float32_f32 tw / 2),
                 halfTileHeight = float32_round (to_float32_f32 th / 2),
                 screenWidth = 0,
                 screenHeight = 0,
                 cache = Map.empty,
                 loading = Map.empty,
                 ScreenTileWidth = 0,
                 ScreenTileHeight = 0,
                 TilesToLoad = [],
                 TilesInFlight = [],
                 loaders = [],
                 cancelled = {},
                 fetching = [],
                 nextFetch = 0\<rparr> vw vh"
  have "\<exists>cs. visibleCells_f32 (?t\<lparr>location := origin\<rparr>) = Some cs"
    using assms
    by (intro visibleCells_f32_returns)
      (simp_all add: Resize_f32_def to_float32_f32_small to_float32_f32_le
        to_float32_f32_ge_one to_float32_f32_half)
  then obtain t' where "SetLocation_f32 impl ?t origin = Some t'"
    using SetLocation_f32_returns by blast
  then show ?thesis
    using assms by (simp add: NewTileGrid_view_f32_def)
qed

text \<open>
  C8 (amended). Grid construction fails with an error when the tile width or the tile
  height is zero; the first revision of grid.go fails also when the screen width or the
  screen height is zero, and the revision with \<^verbatim>\<open>Resize\<close> does not check the view sizes.
  Otherwise, when the pan offsets have magnitude at most \<open>2 ^ 21\<close> and the sizes are at
  most \<open>2 ^ 21\<close>, the construction returns a grid. Nothing is said about the construction
  farther from the origin, where \<^verbatim>\<open>float32\<close> can round a step of the loop variable away.
\<close>

theorem NewTileGrid_checks_in_float32:
  "(tw = 0 \<or> th = 0 \<longrightarrow>
      NewTileGrid_view_f32 impl current tw th sw sh =
        Some (Inl ''tile width and height must be positive'')) \<and>
   (tw = 0 \<or> th = 0 \<or> sw = 0 \<or> sh = 0 \<longrightarrow>
      (\<exists>msg. NewTileGrid_f32 impl current tw th sw sh = Some (Inl msg))) \<and>
   (tw \<noteq> 0 \<and> th \<noteq> 0 \<and>
    \<bar>X current\<bar> \<le> 2097152 \<and> \<bar>Y current\<bar> \<le> 2097152 \<and>
    tw \<le> 2097152 \<and> th \<le> 2097152 \<and> sw \<le> 2097152 \<and> sh \<le> 2097152 \<longrightarrow>
      (\<exists>grid. NewTileGrid_view_f32 impl current tw th sw sh = Some (Inr grid)) \<and>
      (sw \<noteq> 0 \<and> sh \<noteq> 0 \<longrightarrow>
         (\<exists>grid. NewTileGrid_f32 impl current tw th sw sh = Some (Inr grid))))"
proof (intro conjI impI)
  assume "tw = 0 \<or> th = 0"
  then show "NewTileGrid_view_f32 impl current tw th sw sh =
        Some (Inl ''tile width and height must be positive'')"
    by (simp add: NewTileGrid_view_f32_def)
next
  assume "tw = 0 \<or> th = 0 \<or> sw = 0 \<or> sh = 0"
  then show "\<exists>msg. NewTileGrid_f32 impl current tw th sw sh = Some (Inl msg)"
    by (auto simp: NewTileGrid_f32_def)
next
  assume a: "tw \<noteq> 0 \<and> th \<noteq> 0 \<and>
    \<bar>X current\<bar> \<le> 2097152 \<and> \<bar>Y current\<bar> \<le> 2097152 \<and>
    tw \<le> 2097152 \<and> th \<le> 2097152 \<and> sw \<le> 2097152 \<and> sh \<le> 2097152"
  then show "\<exists>grid. NewTileGrid_view_f32 impl current tw th sw sh = Some (Inr grid)"
    by (intro NewTileGrid_view_f32_returns) simp_all
  assume "sw \<noteq> 0 \<and> sh \<noteq> 0"
  with a show "\<exists>grid. NewTileGrid_f32 impl current tw th sw sh = Some (Inr grid)"
    by (intro NewTileGrid_f32_returns) simp_all
qed

text \<open>
  C8 as stated asks for an error when a viewport size is zero. The revision with
  \<^verbatim>\<open>Resize\<close> returns a grid for a view of 0 by 0.
\<close>

theorem NewTileGrid_accepts_empty_view_counterexample:
  "map_option isl
     (NewTileGrid_view_f32 zero_conversion \<lparr>X = 0, Y = 0, Z = 6\<rparr> 256 256 0 0) = Some False"
proof -
  obtain grid where
    "NewTileGrid_view_f32 zero_conversion \<lparr>X = 0, Y = 0, Z = 6\<rparr> 256 256 0 0 = Some (Inr grid)"
    using NewTileGrid_view_f32_returns [of "\<lparr>X = 0, Y = 0, Z = 6\<rparr>" 256 256 0 0 zero_conversion]
    by auto
  then show ?thesis by simp
qed

theorem NewTileGrid_checks_in_float32_witness:
  "NewTileGrid_view_f32 zero_conversion \<lparr>X = 0, Y = 0, Z = 6\<rparr> 256 0 512 512 =
     Some (Inl ''tile width and height must be positive'') \<and>
   (\<exists>msg. NewTileGrid_f32 zero_conversion \<lparr>X = 0, Y = 0, Z = 6\<rparr> 256 256 0 512 = Some (Inl msg)) \<and>
   (\<exists>grid. NewTileGrid_view_f32 zero_conversion \<lparr>X = 0, Y = 0, Z = 6\<rparr> 256 256 0 0 =
      Some (Inr grid)) \<and>
   (\<exists>grid. NewTileGrid_f32 zero_conversion \<lparr>X = 0, Y = 0, Z = 6\<rparr> 256 256 512 512 =
      Some (Inr grid))"
  using NewTileGrid_checks_in_float32 [of 256 0 zero_conversion "\<lparr>X = 0, Y = 0, Z = 6\<rparr>" 512 512]
    NewTileGrid_checks_in_float32 [of 256 256 zero_conversion "\<lparr>X = 0, Y = 0, Z = 6\<rparr>" 0 512]
    NewTileGrid_checks_in_float32 [of 256 256 zero_conversion "\<lparr>X = 0, Y = 0, Z = 6\<rparr>" 0 0]
    NewTileGrid_checks_in_float32 [of 256 256 zero_conversion "\<lparr>X = 0, Y = 0, Z = 6\<rparr>" 512 512]
  by simp

section \<open>Rounding far from the origin\<close>

text \<open>
  A \<^verbatim>\<open>float32\<close> between \<open>2 ^ n\<close> and \<open>2 ^ (n + 1)\<close> is a multiple of \<open>2 ^ (n - 23)\<close>: from
  \<open>2 ^ 32\<close> on the floats are 512 apart, from \<open>2 ^ 33\<close> on 1024 apart, and a step of one
  tile of 256 is lost in the rounding.
\<close>

lemma exponent_eqI:
  assumes "2 ^ n \<le> \<bar>x\<bar>" "\<bar>x\<bar> < 2 ^ Suc n"
  shows "exponent x = int n"
proof -
  have one: "1 \<le> \<bar>x\<bar>"
  proof -
    have "(1::rat) \<le> 2 ^ n" by simp
    with assms(1) show ?thesis by linarith
  qed
  have "(of_int (2 ^ n) :: rat) \<le> \<bar>x\<bar>" using assms(1) by simp
  then have lo: "2 ^ n \<le> \<lfloor>\<bar>x\<bar>\<rfloor>" by (simp only: le_floor_iff)
  have "\<bar>x\<bar> < of_int (2 ^ Suc n)" using assms(2) by simp
  then have hi: "\<lfloor>\<bar>x\<bar>\<rfloor> < 2 ^ Suc n" by (simp only: floor_less_iff)
  have lo': "2 ^ n \<le> nat \<lfloor>\<bar>x\<bar>\<rfloor>"
  proof -
    have "int (2 ^ n) \<le> \<lfloor>\<bar>x\<bar>\<rfloor>" using lo by simp
    then show ?thesis by linarith
  qed
  have hi': "nat \<lfloor>\<bar>x\<bar>\<rfloor> < 2 ^ Suc n"
  proof -
    have "\<lfloor>\<bar>x\<bar>\<rfloor> < int (2 ^ Suc n)" using hi by simp
    then show ?thesis by linarith
  qed
  have "floorlog 2 (nat \<lfloor>\<bar>x\<bar>\<rfloor>) \<le> Suc n"
    using hi' by (intro floorlog_leI) simp_all
  moreover have "Suc n \<le> floorlog 2 (nat \<lfloor>\<bar>x\<bar>\<rfloor>)"
    using lo' by (intro floorlog_ge_SucI) simp_all
  ultimately have "floorlog 2 (nat \<lfloor>\<bar>x\<bar>\<rfloor>) = Suc n" by simp
  with one show ?thesis by (simp add: exponent_def)
qed

lemma float32_round_eval:
  assumes "2 ^ n \<le> \<bar>x\<bar>" "\<bar>x\<bar> < 2 ^ Suc n"
  shows "float32_round x =
           of_int (round_half_even (x * 2 powi (23 - int n))) * 2 powi (int n - 23)"
proof -
  have "x \<noteq> 0"
  proof
    assume "x = 0"
    with assms(1) have "(2::rat) ^ n \<le> 0" by simp
    moreover have "(0::rat) < 2 ^ n" by simp
    ultimately show False by linarith
  qed
  then show ?thesis
    by (simp add: float32_round_def exponent_eqI [OF assms])
qed

lemma round_half_even_nearest:
  assumes "\<bar>y - of_int n\<bar> < 1 / 2"
  shows "round_half_even y = n"
proof (cases "of_int n \<le> y")
  case True
  have "\<lfloor>y\<rfloor> = n"
    using True assms by (intro floor_unique) linarith+
  moreover have "y - of_int n < 1 / 2" using assms by linarith
  ultimately show ?thesis by (simp add: round_half_even_def Let_def)
next
  case False
  have e: "(of_int (n - 1) :: rat) = of_int n - 1" by simp
  have "of_int n - 1 \<le> y" "y < of_int n - 1 + 1" using False assms by linarith+
  then have f: "\<lfloor>y\<rfloor> = n - 1"
    by (intro floor_unique) (simp_all only: e)
  have "1 / 2 < y - (of_int n - 1)" using False assms by linarith
  then have "1 / 2 < y - of_int (n - 1)" by (simp only: e)
  with f show ?thesis by (simp add: round_half_even_def Let_def)
qed

lemma round_half_even_tie:
  assumes "y = of_int n + 1 / 2"
  shows "round_half_even y = (if even n then n else n + 1)"
proof -
  have "\<lfloor>y\<rfloor> = n"
    using assms by (intro floor_unique) simp_all
  moreover have "y - of_int n = 1 / 2" using assms by simp
  ultimately show ?thesis by (simp add: round_half_even_def Let_def)
qed

lemma round_half_even_numeral [simp]: "round_half_even (numeral n) = numeral n"
  using round_half_even_of_int [of "numeral n"] by simp

lemma to_float32_f32_256 [simp]: "to_float32_f32 256 = 256"
  using to_float32_f32_exact [of 256] by simp

lemma to_float32_f32_512 [simp]: "to_float32_f32 512 = 512"
  using to_float32_f32_exact [of 512] by simp

lemma float32_round_128 [simp]: "float32_round 128 = 128"
  using float32_round_whole [of 128] by simp

text \<open>At \<open>2 ^ 32\<close> the loop variable stops advancing, and the loop does not exit.\<close>

lemma frange_f32_stuck:
  assumes "v < hi" "float32_round (v + step) = v"
  shows "frange_f32 v hi step = None"
proof (cases "frange_f32 v hi step")
  case None
  then show ?thesis .
next
  case (Some r)
  have "frange_f32 v hi step = Option.bind (frange_f32 v hi step) (\<lambda>r. Some (v # r))"
    by (subst frange_f32.simps) (simp add: assms)
  with Some have "Some r = Some (v # r)" by simp
  then show ?thesis by simp
qed

lemma float32_round_2_32_minus_256: "float32_round 4294967040 = 4294967040"
  using float32_round_eval [of 31 4294967040] by simp

lemma float32_round_2_32: "float32_round 4294967296 = 4294967296"
  using float32_round_eval [of 32 4294967296] by simp

lemma float32_round_2_32_plus_128: "float32_round 4294967424 = 4294967296"
proof -
  have "round_half_even (33554433 / 4) = 8388608"
    by (rule round_half_even_nearest) simp
  then show ?thesis
    using float32_round_eval [of 32 4294967424] by simp
qed

lemma float32_round_2_32_plus_256: "float32_round 4294967552 = 4294967296"
proof -
  have "round_half_even (16777217 / 2) = 8388608"
    using round_half_even_tie [of "16777217 / 2" 8388608] by simp
  then show ?thesis
    using float32_round_eval [of 32 4294967552] by simp
qed

lemma float32_round_2_32_plus_512: "float32_round 4294967808 = 4294967808"
  using float32_round_eval [of 32 4294967808] by simp

lemma NewTileGrid_f32_loop_stuck:
  "NewTileGrid_f32 impl \<lparr>X = 4294967296, Y = 0, Z = 6\<rparr> 256 256 512 512 = None"
proof -
  have s: "frange_f32 4294967296 4294967808 256 = None"
    by (rule frange_f32_stuck) (simp_all add: float32_round_2_32_plus_256)
  have "frange_f32 4294967040 4294967808 256 = None"
    by (subst frange_f32.simps) (simp add: float32_round_2_32 s)
  then have "visibleCells_f32 (initial_grid_f32 \<lparr>X = 4294967296, Y = 0, Z = 6\<rparr> 256 256 512 512) = None"
    by (simp add: visibleCells_f32_def initial_grid_f32_def Let_def
        float32_round_2_32_minus_256 float32_round_2_32_plus_128 float32_round_2_32_plus_512)
  then show ?thesis
    by (simp add: NewTileGrid_f32_def SetLocation_f32_def forEachVisibleTile_f32_def
        initial_grid_f32_def Let_def)
qed





section \<open>Repeated keys near the origin\<close>







end
